theory Spec2Isabelle
  imports Main
begin

section \<open>Tokens\<close>

text \<open>
  \<^verbatim>\<open>ctoken.py\<close>: a token is its index in the stream it came from, its character range in
  the text it was cut from, and its text. The dataclass compares tokens by \<^verbatim>\<open>value\<close> alone
  (\<^verbatim>\<open>idx\<close> and \<^verbatim>\<open>range\<close> are declared \<^verbatim>\<open>compare=False\<close>).
\<close>

record Token =
  tok_idx :: nat
  tok_range :: "nat \<times> nat"
  tok_value :: string

definition token_eq :: "Token \<Rightarrow> Token \<Rightarrow> bool" where
  "token_eq a b = (tok_value a = tok_value b)"

definition token_opt_eq :: "Token option \<Rightarrow> Token option \<Rightarrow> bool" where
  "token_opt_eq a b =
     (case (a, b) of
        (None, None) \<Rightarrow> True
      | (Some x, Some y) \<Rightarrow> token_eq x y
      | _ \<Rightarrow> False)"

text \<open>\<^verbatim>\<open>TokenList.short_repr\<close>: the token texts joined by one space.\<close>

fun join_with :: "string \<Rightarrow> string list \<Rightarrow> string" where
  "join_with sep [] = []"
| "join_with sep [x] = x"
| "join_with sep (x # y # ys) = x @ sep @ join_with sep (y # ys)"

definition short_repr :: "Token list \<Rightarrow> string" where
  "short_repr ts = join_with '' '' (map tok_value ts)"

section \<open>The codebase model (\<^verbatim>\<open>codebase.py\<close>)\<close>

subsection \<open>Function declarations (\<^verbatim>\<open>function.py\<close>)\<close>

record FunctionParts =
  fn_typename :: "Token list"
  fn_name :: Token
  fn_args :: Token
  fn_body :: "Token option"
  fn_preComment :: "Token option"
  fn_postComment :: "Token option"

text \<open>
  \<^verbatim>\<open>FunctionParts.update\<close> compares the two declarations, returns the list of conflict
  messages and fills the comments that \<^verbatim>\<open>self\<close> lacks; it never copies the body.
\<close>

definition FunctionParts_update ::
  "FunctionParts \<Rightarrow> FunctionParts \<Rightarrow> FunctionParts \<times> string list" where
  "FunctionParts_update self other =
     (let nm = tok_value (fn_name self);
          e1 = (if map tok_value (fn_typename self) \<noteq> map tok_value (fn_typename other)
                then [''ERROR: function retType mismatch for '' @ nm @ '': ''
                        @ short_repr (fn_typename self) @ '' != '' @ short_repr (fn_typename other)]
                else []);
          e2 = (if \<not> token_eq (fn_name self) (fn_name other)
                then [''ERROR: function name mismatch for '' @ nm @ '': ''
                        @ nm @ '' != '' @ tok_value (fn_name other)]
                else []);
          e3 = (if \<not> token_eq (fn_args self) (fn_args other)
                then [''ERROR: function args mismatch for '' @ nm @ '': ''
                        @ tok_value (fn_args self) @ '' != '' @ tok_value (fn_args other)]
                else []);
          e4 = (if fn_body self \<noteq> None \<and> fn_body other \<noteq> None
                   \<and> \<not> token_opt_eq (fn_body self) (fn_body other)
                then [''ERROR: function redifinition: '' @ nm]
                else []);
          pre = (if fn_preComment self = None then fn_preComment other else fn_preComment self);
          post = (if fn_postComment self = None then fn_postComment other else fn_postComment self)
      in (self\<lparr>fn_preComment := pre, fn_postComment := post\<rparr>, e1 @ e2 @ e3 @ e4))"

subsection \<open>Definitions\<close>

text \<open>
  \<^verbatim>\<open>Details = FunctionParts | RecordParts | Variable\<close>. The modules \<^verbatim>\<open>record.py\<close> and
  \<^verbatim>\<open>variable.py\<close> are not part of the sources at hand, so the record and variable
  details are type parameters, and what the code asks of them is collected in
  \<open>Env\<close>, together with \<^verbatim>\<open>get_file_priority\<close> of the absent \<^verbatim>\<open>internal.py\<close>.
\<close>

datatype ('r, 'v) Details = DFunction FunctionParts | DRecord 'r | DVariable 'v

record ('r, 'v) Env =
  get_file_priority :: "string \<Rightarrow> int"
  record_body :: "'r \<Rightarrow> Token option"
  record_update :: "'r \<Rightarrow> 'r \<Rightarrow> 'r \<times> string list"
  variable_update :: "'v \<Rightarrow> 'v \<Rightarrow> 'v \<times> string list"

text \<open>
  Of the scope only the file name is read (by \<^verbatim>\<open>get_priority\<close>); the tristate
  \<^verbatim>\<open>is_private\<close> is \<open>bool option\<close> with \<open>None\<close> for "not specified".
\<close>

record ('r, 'v) Definition =
  def_name :: string
  def_kind :: string
  def_file :: string
  def_offset :: nat
  def_module :: string
  is_private :: "bool option"
  details :: "('r, 'v) Details option"
  preComments :: "Token list"
  postComments :: "Token list"

text \<open>\<^verbatim>\<open>bool(self.is_private)\<close>: \<^verbatim>\<open>None\<close> and \<^verbatim>\<open>False\<close> are both false.\<close>

definition py_bool :: "bool option \<Rightarrow> bool" where
  "py_bool b = (b = Some True)"

definition get_priority :: "('r, 'v) Env \<Rightarrow> ('r, 'v) Definition \<Rightarrow> int" where
  "get_priority E d =
     (let ret = (if py_bool (is_private d) then 1 else 0) * 10 + get_file_priority E (def_file d)
      in case details d of
           Some (DFunction f) \<Rightarrow> ret + (if fn_body f \<noteq> None then 1 else 0) * 100
         | Some (DRecord r) \<Rightarrow> ret + (if record_body E r \<noteq> None then 1 else 0) * 100
         | _ \<Rightarrow> ret)"

text \<open>The diagnostics that \<^verbatim>\<open>update\<close> sends to \<^verbatim>\<open>WARNING\<close>, one value per group of calls.\<close>

datatype warning =
    KindMismatch string string
  | ModuleMismatch string string
  | DetailsTypeMismatch
  | DetailsConflict "string list"

text \<open>\<^verbatim>\<open>type(self.details).__name__\<close>\<close>

definition details_type :: "('r, 'v) Details option \<Rightarrow> string" where
  "details_type d =
     (case d of
        None \<Rightarrow> ''NoneType''
      | Some (DFunction _) \<Rightarrow> ''FunctionParts''
      | Some (DRecord _) \<Rightarrow> ''RecordParts''
      | Some (DVariable _) \<Rightarrow> ''Variable'')"

definition update_details ::
  "('r, 'v) Env \<Rightarrow> ('r, 'v) Details \<Rightarrow> ('r, 'v) Details \<Rightarrow> ('r, 'v) Details \<times> string list" where
  "update_details E a b =
     (case (a, b) of
        (DFunction f, DFunction g) \<Rightarrow> (let (f', es) = FunctionParts_update f g in (DFunction f', es))
      | (DRecord r, DRecord s) \<Rightarrow> (let (r', es) = record_update E r s in (DRecord r', es))
      | (DVariable v, DVariable w) \<Rightarrow> (let (v', es) = variable_update E v w in (DVariable v', es))
      | _ \<Rightarrow> (a, []))"

text \<open>
  The body of \<^verbatim>\<open>Definition.update\<close> below the priority test: \<^verbatim>\<open>other\<close> is folded into
  \<^verbatim>\<open>self\<close>, which is mutated in place; \<^verbatim>\<open>other\<close> is only read. The result is the new
  state of \<^verbatim>\<open>self\<close> and the warnings.
\<close>

definition details_merge ::
  "('r, 'v) Env \<Rightarrow> ('r, 'v) Details option \<Rightarrow> ('r, 'v) Details option
     \<Rightarrow> ('r, 'v) Details option \<times> warning list" where
  "details_merge E ds dother =
     (if details_type ds \<noteq> details_type dother then (ds, [DetailsTypeMismatch])
      else (case ds of
              None \<Rightarrow> (ds, [])
            | Some a \<Rightarrow>
                (case dother of
                   None \<Rightarrow> (ds, [])
                 | Some b \<Rightarrow>
                     (Some (fst (update_details E a b)),
                      if snd (update_details E a b) \<noteq> []
                      then [DetailsConflict (snd (update_details E a b))] else []))))"

definition update_fold ::
  "('r, 'v) Env \<Rightarrow> ('r, 'v) Definition \<Rightarrow> ('r, 'v) Definition
     \<Rightarrow> ('r, 'v) Definition \<times> warning list" where
  "update_fold E self other =
     (let w1 = (if def_kind self \<noteq> def_kind other
                then [KindMismatch (def_kind self) (def_kind other)] else []);
          w2 = (if def_module self \<noteq> def_module other
                then [ModuleMismatch (def_module self) (def_module other)] else []);
          priv = (if py_bool (is_private other) then Some True else is_private self);
          dm = details_merge E (details self) (details other)
      in (self\<lparr>is_private := priv, details := fst dm,
                preComments := preComments self @ preComments other,
                postComments := postComments self @ postComments other\<rparr>,
          w1 @ w2 @ snd dm))"

text \<open>
  \<^verbatim>\<open>Definition.update(self, other, check_riority)\<close>. Both arguments are objects that the
  caller still holds afterwards, so the model returns the state of both: when
  \<^verbatim>\<open>self\<close> has the lower priority the call is \<^verbatim>\<open>other.update(self, False)\<close>, which
  mutates \<^verbatim>\<open>other\<close> and leaves \<^verbatim>\<open>self\<close> as it was.
\<close>

definition update ::
  "('r, 'v) Env \<Rightarrow> ('r, 'v) Definition \<Rightarrow> ('r, 'v) Definition \<Rightarrow> bool
     \<Rightarrow> ('r, 'v) Definition \<times> ('r, 'v) Definition \<times> warning list" where
  "update E self other check_riority =
     (if check_riority \<and> get_priority E self < get_priority E other
      then (let (other', ws) = update_fold E other self in (self, other', ws))
      else (let (self', ws) = update_fold E self other in (self', other, ws)))"

text \<open>
  \<^verbatim>\<open>_dict_upsert_def(d, other)\<close>: the dictionary keeps the object it already holds under
  the name (in whatever state \<^verbatim>\<open>update\<close> leaves it); a new name stores \<^verbatim>\<open>other\<close>.
  The second component is the state of the \<^verbatim>\<open>other\<close> object after the call.
\<close>

definition dict_upsert_def ::
  "('r, 'v) Env \<Rightarrow> (string \<rightharpoonup> ('r, 'v) Definition) \<Rightarrow> ('r, 'v) Definition
     \<Rightarrow> (string \<rightharpoonup> ('r, 'v) Definition) \<times> ('r, 'v) Definition \<times> warning list" where
  "dict_upsert_def E d other =
     (case d (def_name other) of
        Some self \<Rightarrow>
          (let (self', other', ws) = update E self other True
           in (d(def_name other \<mapsto> self'), other', ws))
      | None \<Rightarrow> (d(def_name other \<mapsto> other), other, []))"

text \<open>Repeated calls of \<^verbatim>\<open>_dict_upsert_def\<close> on one table, one per definition of the list, in order.\<close>

fun upsert_all ::
  "('r, 'v) Env \<Rightarrow> (string \<rightharpoonup> ('r, 'v) Definition) \<Rightarrow> ('r, 'v) Definition list
     \<Rightarrow> (string \<rightharpoonup> ('r, 'v) Definition)" where
  "upsert_all E d [] = d"
| "upsert_all E d (x # xs) = upsert_all E (fst (dict_upsert_def E d x)) xs"

subsection \<open>Scanning function definitions\<close>

text \<open>
  The function branch of \<^verbatim>\<open>updateFromText\<close> for one statement, once
  \<^verbatim>\<open>FunctionParts.fromStatement\<close> has returned \<open>func\<close>: behind the test
  \<^verbatim>\<open>if func and func.body\<close> the \<^verbatim>\<open>Definition\<close> is built from \<open>func\<close> and upserted into
  \<^verbatim>\<open>names\<close>; a function without a body leaves the table as it is. \<open>file\<close> is the file of the
  current scope and \<open>vis\<close> the pair \<^verbatim>\<open>(is_private, module)\<close> that
  \<^verbatim>\<open>_get_visibility_and_module\<close> returns for \<open>func\<close>.
\<close>

definition function_Definition ::
  "string \<Rightarrow> bool option \<times> string \<Rightarrow> FunctionParts \<Rightarrow> ('r, 'v) Definition" where
  "function_Definition file vis func =
     \<lparr>def_name = tok_value (fn_name func), def_kind = ''function'', def_file = file,
      def_offset = fst (tok_range (fn_name func)), def_module = snd vis, is_private = fst vis,
      details = Some (DFunction func), preComments = [], postComments = []\<rparr>"

definition add_function ::
  "('r, 'v) Env \<Rightarrow> (string \<rightharpoonup> ('r, 'v) Definition) \<Rightarrow> string \<Rightarrow> bool option \<times> string
     \<Rightarrow> FunctionParts \<Rightarrow> (string \<rightharpoonup> ('r, 'v) Definition)" where
  "add_function E names file vis func =
     (if fn_body func \<noteq> None
      then fst (dict_upsert_def E names (function_Definition file vis func))
      else names)"

text \<open>The same for the function statements of a scan, in the order in which they are met.\<close>

fun add_functions ::
  "('r, 'v) Env \<Rightarrow> (string \<rightharpoonup> ('r, 'v) Definition)
     \<Rightarrow> (string \<times> (bool option \<times> string) \<times> FunctionParts) list
     \<Rightarrow> (string \<rightharpoonup> ('r, 'v) Definition)" where
  "add_functions E names [] = names"
| "add_functions E names ((file, vis, func) # xs) =
     add_functions E (add_function E names file vis func) xs"

subsection \<open>Typedef resolution\<close>

text \<open>
  Of the \<^verbatim>\<open>Codebase\<close> dictionaries \<^verbatim>\<open>untypedef\<close> reads the key sets of \<^verbatim>\<open>types\<close> and
  \<^verbatim>\<open>fields\<close> and the map \<^verbatim>\<open>typedefs\<close>.
\<close>

record ('r, 'v) Codebase =
  cb_types :: "string \<rightharpoonup> ('r, 'v) Definition"
  cb_fields :: "string \<rightharpoonup> (string \<rightharpoonup> ('r, 'v) Definition)"
  cb_names :: "string \<rightharpoonup> ('r, 'v) Definition"
  cb_typedefs :: "string \<rightharpoonup> string"

text \<open>
  The \<^verbatim>\<open>while name in self.typedefs\<close> loop on the state \<^verbatim>\<open>(name, name1, name2)\<close>. A cycle
  in the typedef map makes the loop run forever: the result is then \<open>None\<close>.
\<close>

partial_function (option) untypedef_loop ::
  "('r, 'v) Codebase \<Rightarrow> string \<Rightarrow> string \<Rightarrow> string \<Rightarrow> (string \<times> string \<times> string) option" where
  "untypedef_loop cb name name1 name2 =
     (case cb_typedefs cb name of
        None \<Rightarrow> Some (name, name1, name2)
      | Some target \<Rightarrow>
          untypedef_loop cb target
            (if cb_types cb name \<noteq> None then target else name1)
            (if cb_fields cb name \<noteq> None then target else name2))"

definition untypedef :: "('r, 'v) Codebase \<Rightarrow> string \<Rightarrow> string option" where
  "untypedef cb name =
     map_option
       (\<lambda>(name', name1, name2).
          if name2 \<noteq> [] then name2 else if name1 \<noteq> [] then name1 else name')
       (untypedef_loop cb name [] [])"

text \<open>
  A typedef chain: \<open>is_chain td n ns\<close> says that \<open>ns\<close> are the successive typedef targets
  starting from \<open>n\<close>, and that the last name is not a typedef. \<open>last_target P d n ns\<close> is
  the target of the last link of the chain whose source satisfies \<open>P\<close>, and \<open>d\<close> when no
  link does.
\<close>

fun is_chain :: "(string \<rightharpoonup> string) \<Rightarrow> string \<Rightarrow> string list \<Rightarrow> bool" where
  "is_chain td n [] = (td n = None)"
| "is_chain td n (t # ts) = (td n = Some t \<and> is_chain td t ts)"

definition last_target :: "(string \<Rightarrow> bool) \<Rightarrow> string \<Rightarrow> string \<Rightarrow> string list \<Rightarrow> string" where
  "last_target P dflt n ns =
     (case filter (\<lambda>l. P (fst l)) (zip (n # ns) ns) of
        [] \<Rightarrow> dflt
      | x # xs \<Rightarrow> snd (last (x # xs)))"

subsection \<open>Sample sightings and codebases\<close>

definition mk_token :: "string \<Rightarrow> Token" where
  "mk_token s = \<lparr>tok_idx = 0, tok_range = (0, length s), tok_value = s\<rparr>"

text \<open>
  A sighting of the function \<^verbatim>\<open>f\<close> in \<open>file\<close>: \<^verbatim>\<open>void f(int);\<close> when \<open>body\<close> is \<open>None\<close>,
  \<^verbatim>\<open>void f(int) {...}\<close> otherwise.
\<close>

definition f_sighting ::
  "string \<Rightarrow> Token option \<Rightarrow> bool option \<Rightarrow> ('r, 'v) Definition" where
  "f_sighting file body priv =
     \<lparr>def_name = ''f'', def_kind = ''function'', def_file = file, def_offset = 5,
      def_module = ''m'', is_private = priv,
      details = Some (DFunction
        \<lparr>fn_typename = [mk_token ''void''], fn_name = mk_token ''f'', fn_args = mk_token ''int'',
         fn_body = body, fn_preComment = None, fn_postComment = None\<rparr>),
      preComments = [], postComments = []\<rparr>"

text \<open>
  What \<^verbatim>\<open>FunctionParts.fromStatement\<close> keeps of a statement \<^verbatim>\<open>void f(args)\<close> followed by a
  body or not, with or without a leading comment.
\<close>

definition f_parts :: "string \<Rightarrow> Token option \<Rightarrow> Token option \<Rightarrow> FunctionParts" where
  "f_parts args body pre =
     \<lparr>fn_typename = [mk_token ''void''], fn_name = mk_token ''f'', fn_args = mk_token args,
      fn_body = body, fn_preComment = pre, fn_postComment = None\<rparr>"

definition body_of :: "('r, 'v) Definition option \<Rightarrow> Token option" where
  "body_of d =
     (case d of
        Some x \<Rightarrow> (case details x of Some (DFunction f) \<Rightarrow> fn_body f | _ \<Rightarrow> None)
      | None \<Rightarrow> None)"

definition record_sighting :: "string \<Rightarrow> (unit, unit) Definition" where
  "record_sighting nm =
     \<lparr>def_name = nm, def_kind = ''record'', def_file = ''a.h'', def_offset = 0,
      def_module = [], is_private = None, details = None,
      preComments = [], postComments = []\<rparr>"

text \<open>\<^verbatim>\<open>typedef struct foo BAR; typedef BAR BAZ;\<close>\<close>

definition cb_foo :: "(unit, unit) Codebase" where
  "cb_foo =
     \<lparr>cb_types = Map.empty, cb_fields = Map.empty, cb_names = Map.empty,
      cb_typedefs = [''BAR'' \<mapsto> ''foo'', ''BAZ'' \<mapsto> ''BAR'']\<rparr>"

text \<open>
  Records \<^verbatim>\<open>A\<close> (with a field \<^verbatim>\<open>x\<close>) and \<^verbatim>\<open>B\<close> (without fields), and the typedefs
  \<^verbatim>\<open>A -> B\<close>, \<^verbatim>\<open>B -> C\<close>.
\<close>

definition cb_pref :: "(unit, unit) Codebase" where
  "cb_pref =
     \<lparr>cb_types = [''A'' \<mapsto> record_sighting ''A'', ''B'' \<mapsto> record_sighting ''B''],
      cb_fields = [''A'' \<mapsto> [''x'' \<mapsto> record_sighting ''x'']],
      cb_names = Map.empty,
      cb_typedefs = [''A'' \<mapsto> ''B'', ''B'' \<mapsto> ''C'']\<rparr>"

text \<open>
  Records \<^verbatim>\<open>A\<close> (with a field \<^verbatim>\<open>x\<close>) and \<^verbatim>\<open>C\<close> (without fields), and the typedefs
  \<^verbatim>\<open>A -> B\<close>, \<^verbatim>\<open>B -> C\<close>, \<^verbatim>\<open>C -> D\<close>, as left by
  \<^verbatim>\<open>struct A { int x; }; typedef struct B A; typedef struct C B; struct C { }; typedef struct D C;\<close>
\<close>

definition cb_gap :: "(unit, unit) Codebase" where
  "cb_gap =
     \<lparr>cb_types = [''A'' \<mapsto> record_sighting ''A'', ''C'' \<mapsto> record_sighting ''C''],
      cb_fields = [''A'' \<mapsto> [''x'' \<mapsto> record_sighting ''x'']],
      cb_names = Map.empty,
      cb_typedefs = [''A'' \<mapsto> ''B'', ''B'' \<mapsto> ''C'', ''C'' \<mapsto> ''D'']\<rparr>"

section \<open>Properties of the codebase model\<close>

subsection \<open>Merging two sightings\<close>

lemma get_priority_f_sighting:
  "get_priority E (f_sighting file body priv) =
     (if priv = Some True then 10 else 0) + get_file_priority E file
       + (if body \<noteq> None then 100 else 0)"
  by (simp add: get_priority_def f_sighting_def py_bool_def)

text \<open>
  C6. A prototype \<^verbatim>\<open>void f(int);\<close> and a definition \<^verbatim>\<open>void f(int x){...}\<close> are scanned, from
  any two files and with any visibility: the prototype is not upserted, so in either order
  the table holds one entry for \<^verbatim>\<open>f\<close>, the definition, with its body. But the entry does not
  carry the merged higher-priority state in general. Two definitions of \<^verbatim>\<open>f\<close> with a body are
  scanned from one file, the first unmarked, the second under a comment \<^verbatim>\<open>/* #private */\<close>:
  the second has the higher priority, \<^verbatim>\<open>update\<close> folds the stored one into the arriving
  object (which is the merged state, and which nothing stores), and the table entry is the
  first definition, unchanged.
\<close>

theorem C6_outranking_sighting_not_stored:
  "add_functions E Map.empty
       [(h, v, f_parts ''int'' None None), (c, w, f_parts ''int x'' (Some b) None)] ''f''
     = Some (function_Definition c w (f_parts ''int x'' (Some b) None))
   \<and> add_functions E Map.empty
       [(c, w, f_parts ''int x'' (Some b) None), (h, v, f_parts ''int'' None None)] ''f''
     = Some (function_Definition c w (f_parts ''int x'' (Some b) None))
   \<and> body_of (Some (function_Definition c w (f_parts ''int x'' (Some b) None))) = Some b
   \<and> add_functions E Map.empty
       [(c, (None, m), f_parts ''int x'' (Some b) None),
        (c, (Some True, m), f_parts ''int x'' (Some b) (Some (mk_token ''/* #private */'')))] ''f''
     = Some (function_Definition c (None, m) (f_parts ''int x'' (Some b) None))
   \<and> fst (snd (dict_upsert_def E
       [''f'' \<mapsto> function_Definition c (None, m) (f_parts ''int x'' (Some b) None)]
       (function_Definition c (Some True, m)
          (f_parts ''int x'' (Some b) (Some (mk_token ''/* #private */''))))))
     = function_Definition c (Some True, m)
         (f_parts ''int x'' (Some b) (Some (mk_token ''/* #private */'')))"
  by (simp add: add_function_def dict_upsert_def_def update_def get_priority_def
        function_Definition_def f_parts_def mk_token_def body_of_def py_bool_def
        update_fold_def details_merge_def details_type_def update_details_def
        FunctionParts_update_def token_eq_def token_opt_eq_def Let_def split_beta)

subsection \<open>Visibility\<close>

text \<open>
  C7. A sighting of \<^verbatim>\<open>f\<close> that is not marked (public by default) is in the table, and a
  private sighting of \<^verbatim>\<open>f\<close> from the same file arrives: the private one has the higher
  priority, the merge goes into the arriving object, and the table entry stays unmarked.
  In the other order the entry is private.
\<close>

theorem C7_private_second_entry_not_private:
  "map_option is_private (upsert_all E Map.empty
       [f_sighting file (Some b) None, f_sighting file (Some b) (Some True)] ''f'') = Some None
   \<and> map_option is_private (upsert_all E Map.empty
       [f_sighting file (Some b) (Some True), f_sighting file (Some b) None] ''f'')
       = Some (Some True)"
  by (simp add: dict_upsert_def_def update_def get_priority_f_sighting
        update_fold_def Let_def split_beta py_bool_def)
    (simp add: f_sighting_def)

subsection \<open>Typedef chains\<close>

lemma last_target_Nil: "last_target P d n [] = d"
  by (simp add: last_target_def)

lemma last_target_Cons:
  "last_target P d n (t # ts) = last_target P (if P n then t else d) t ts"
  by (auto simp: last_target_def split: list.splits)

lemma untypedef_loop_chain:
  "is_chain (cb_typedefs cb) n ns \<Longrightarrow>
   untypedef_loop cb n a b =
     Some (last (n # ns),
           last_target (\<lambda>s. cb_types cb s \<noteq> None) a n ns,
           last_target (\<lambda>s. cb_fields cb s \<noteq> None) b n ns)"
proof (induction ns arbitrary: n a b)
  case Nil
  then show ?case by (subst untypedef_loop.simps) (simp add: last_target_Nil)
next
  case (Cons t ts)
  then show ?case
    by (subst untypedef_loop.simps) (simp add: last_target_Cons)
qed

text \<open>
  C8, as the code has it. Along a typedef chain from \<open>name\<close> that ends,
  \<^verbatim>\<open>untypedef(name)\<close> returns the target of the last link whose source names a
  field-bearing type when there is one (and it is not the empty string), else the target
  of the last link whose source names a known record type, else the last name of the chain.
  With \<^verbatim>\<open>BAR -> foo\<close> and \<^verbatim>\<open>BAZ -> BAR\<close>, \<^verbatim>\<open>untypedef("BAZ")\<close> is \<^verbatim>\<open>foo\<close>.
\<close>

theorem C8_untypedef_chain:
  "(is_chain (cb_typedefs cb) name ns \<longrightarrow>
      untypedef cb name =
        Some (let name1 = last_target (\<lambda>s. cb_types cb s \<noteq> None) [] name ns;
                  name2 = last_target (\<lambda>s. cb_fields cb s \<noteq> None) [] name ns
              in if name2 \<noteq> [] then name2 else if name1 \<noteq> [] then name1
                 else last (name # ns)))
   \<and> untypedef cb_foo ''BAZ'' = Some ''foo''"
proof -
  have "is_chain (cb_typedefs cb_foo) ''BAZ'' [''BAR'', ''foo'']"
    by (simp add: cb_foo_def)
  from untypedef_loop_chain [OF this, of "[]" "[]"]
  have "untypedef cb_foo ''BAZ'' = Some ''foo''"
    by (simp add: untypedef_def last_target_def cb_foo_def)
  then show ?thesis
    by (simp add: untypedef_def untypedef_loop_chain Let_def)
qed

theorem C8_untypedef_chain_witness:
  "is_chain (cb_typedefs cb_pref) ''A'' [''B'', ''C''] \<and> untypedef cb_pref ''A'' = Some ''B''"
  using C8_untypedef_chain [of cb_pref "''A''" "[''B'', ''C'']"]
  by (simp add: cb_pref_def last_target_def)

text \<open>
  The name returned need not be a record type, a field-bearing type or the end of the chain.
  In \<open>cb_gap\<close> the chain from \<^verbatim>\<open>A\<close> is \<^verbatim>\<open>A -> B -> C -> D\<close>, the names \<^verbatim>\<open>A\<close> and \<^verbatim>\<open>C\<close> on it
  are known record types and \<^verbatim>\<open>A\<close> is field-bearing, and \<^verbatim>\<open>untypedef("A")\<close> is \<^verbatim>\<open>B\<close>: a
  name that is in neither table, that is itself a typedef, and that is not the final target
  \<^verbatim>\<open>D\<close>.
\<close>

theorem C8_result_in_no_table:
  "untypedef cb_gap ''A'' = Some ''B''
   \<and> cb_types cb_gap ''B'' = None \<and> cb_fields cb_gap ''B'' = None
   \<and> cb_typedefs cb_gap ''B'' = Some ''C''
   \<and> is_chain (cb_typedefs cb_gap) ''A'' [''B'', ''C'', ''D'']
   \<and> cb_types cb_gap ''A'' \<noteq> None \<and> cb_types cb_gap ''C'' \<noteq> None
   \<and> cb_fields cb_gap ''A'' \<noteq> None"
proof -
  have "is_chain (cb_typedefs cb_gap) ''A'' [''B'', ''C'', ''D'']"
    by (simp add: cb_gap_def)
  from untypedef_loop_chain [OF this, of "[]" "[]"]
  show ?thesis
    by (simp add: untypedef_def last_target_def cb_gap_def)
qed

section \<open>The tokenizer\<close>

subsection \<open>Characters\<close>

text \<open>
  Texts are strings of 8-bit characters and are read as ASCII: the classes \<^verbatim>\<open>\w\<close> and \<^verbatim>\<open>\s\<close> of
  the patterns and the white space of \<^verbatim>\<open>str.strip\<close> are given on the ASCII range.
\<close>

abbreviation NL :: char where "NL \<equiv> CHR 0x0A"
abbreviation BSL :: char where "BSL \<equiv> CHR 0x5C"
abbreviation DQ :: char where "DQ \<equiv> CHR 0x22"
abbreviation SQ :: char where "SQ \<equiv> CHR 0x27"

text \<open>\<^verbatim>\<open>\w\<close>: letters, digits and the underscore.\<close>

definition is_word :: "char \<Rightarrow> bool" where
  "is_word c = (let n = (of_char c :: nat) in
     (48 \<le> n \<and> n \<le> 57) \<or> (65 \<le> n \<and> n \<le> 90) \<or> n = 95 \<or> (97 \<le> n \<and> n \<le> 122))"

text \<open>The class \<^verbatim>\<open>[\r\t ]\<close>.\<close>

definition is_hspace :: "char \<Rightarrow> bool" where
  "is_hspace c = (c = CHR 0x0D \<or> c = CHR 0x09 \<or> c = CHR '' '')"

text \<open>\<^verbatim>\<open>\s\<close>: blank, tab, line feed, vertical tab, form feed, carriage return.\<close>

definition is_space :: "char \<Rightarrow> bool" where
  "is_space c = (c = CHR '' '' \<or> c = CHR 0x09 \<or> c = NL \<or> c = CHR 0x0B \<or> c = CHR 0x0C \<or> c = CHR 0x0D)"

text \<open>The white space of \<^verbatim>\<open>str.strip()\<close>: that of \<^verbatim>\<open>\s\<close> and the four separators 0x1C..0x1F.\<close>

definition py_isspace :: "char \<Rightarrow> bool" where
  "py_isspace c = (is_space c \<or> c = CHR 0x1C \<or> c = CHR 0x1D \<or> c = CHR 0x1E \<or> c = CHR 0x1F)"

definition strip :: "string \<Rightarrow> string" where
  "strip s = rev (dropWhile py_isspace (rev (dropWhile py_isspace s)))"

text \<open>\<open>nth_is s n c\<close>: the text \<open>s\<close> has the character \<open>c\<close> at offset \<open>n\<close>.\<close>

definition nth_is :: "string \<Rightarrow> nat \<Rightarrow> char \<Rightarrow> bool" where
  "nth_is s n c = (case drop n s of [] \<Rightarrow> False | d # _ \<Rightarrow> d = c)"

subsection \<open>The grammar \<^verbatim>\<open>TOKEN\<close>\<close>

text \<open>
  \<^verbatim>\<open>re_token_preproc\<close> (\<^verbatim>\<open>macro.py\<close>) defines the recursive pattern \<^verbatim>\<open>TOKEN\<close> as an ordered choice
  of alternatives. A pattern is modelled by the list of the lengths of its matches at the start
  of a text, in the order in which the backtracking matcher finds them: the empty list is
  failure, an atomic group \<^verbatim>\<open>(?>...)\<close> or a possessive repetition keeps the first element only.
  The patterns are read under the flags \<^verbatim>\<open>VERBOSE\<close> and \<^verbatim>\<open>DOTALL\<close> (they are laid out with blanks
  and a comment, and carry the note \<^verbatim>\<open>/nxs\<close>): blanks in a pattern match nothing and \<^verbatim>\<open>.\<close> matches
  every character.

  \<^verbatim>\<open>(?: [^\\\n] | \\. )*+\<close>: the length of the longest run of items, each a character other
  than backslash and line feed, or a backslash and the character after it.
\<close>

fun skip_line_items :: "string \<Rightarrow> nat" where
  "skip_line_items [] = 0"
| "skip_line_items (c # r) =
     (if c = BSL then (case r of [] \<Rightarrow> 0 | d # r' \<Rightarrow> 2 + skip_line_items r')
      else if c = NL then 0
      else 1 + skip_line_items r)"

text \<open>
  \<^verbatim>\<open>(?> \/\/ (?: [^\\\n] | \\. )*+ \n)\<close>, and with \<open>hash\<close> the pattern
  \<^verbatim>\<open>(?> (?: \# | \/\/ ) (?: [^\\\n] | \\. )*+ \n)\<close> of \<^verbatim>\<open>Macros.expand\<close>, which also takes a line
  that starts with \<^verbatim>\<open>#\<close>.
\<close>

definition line_comment :: "bool \<Rightarrow> string \<Rightarrow> nat list" where
  "line_comment hash s =
     (let k = (if hash \<and> take 1 s = ''#'' then 1 else if take 2 s = ''//'' then 2 else 0);
          n = k + skip_line_items (drop k s)
      in if 0 < k \<and> nth_is s n NL then [n + 1] else [])"

text \<open>\<^verbatim>\<open>(?: [^*] | \*[^\/] )*+\<close>\<close>

fun skip_block_items :: "string \<Rightarrow> nat" where
  "skip_block_items [] = 0"
| "skip_block_items (c # r) =
     (if c \<noteq> CHR ''*'' then 1 + skip_block_items r
      else (case r of [] \<Rightarrow> 0
            | d # r' \<Rightarrow> if d \<noteq> CHR ''/'' then 2 + skip_block_items r' else 0))"

text \<open>\<^verbatim>\<open>(?> \/\* (?: [^*] | \*[^\/] )*+ \*\/ )\<close>\<close>

definition block_comment :: "string \<Rightarrow> nat list" where
  "block_comment s =
     (let n = 2 + skip_block_items (drop 2 s)
      in if take 2 s = ''/*'' \<and> take 2 (drop n s) = ''*/'' then [n + 2] else [])"

text \<open>
  \<^verbatim>\<open>(?> [^\\"] | \\. )*\<close> for the quote \<open>q\<close>. The repetition is greedy, not possessive, but
  giving an item back never helps: the character then met belongs to an item and is not the
  quote.
\<close>

fun skip_quoted_items :: "char \<Rightarrow> string \<Rightarrow> nat" where
  "skip_quoted_items q [] = 0"
| "skip_quoted_items q (c # r) =
     (if c = BSL then (case r of [] \<Rightarrow> 0 | d # r' \<Rightarrow> 2 + skip_quoted_items q r')
      else if c = q then 0
      else 1 + skip_quoted_items q r)"

text \<open>\<^verbatim>\<open>(?> " (?> [^\\"] | \\. )* " )\<close> and the same with \<^verbatim>\<open>'\<close>.\<close>

definition quoted :: "char \<Rightarrow> string \<Rightarrow> nat list" where
  "quoted q s =
     (let n = 1 + skip_quoted_items q (drop 1 s)
      in if take 1 s = [q] \<and> nth_is s n q then [n + 1] else [])"

text \<open>\<^verbatim>\<open>(?>\n)\<close>, \<^verbatim>\<open>[\r\t ]++\<close> and \<^verbatim>\<open>(?>\\.)\<close>\<close>

definition newline :: "string \<Rightarrow> nat list" where
  "newline s = (if take 1 s = [NL] then [1] else [])"

definition hspace :: "string \<Rightarrow> nat list" where
  "hspace s = (let n = length (takeWhile is_hspace s) in if 0 < n then [n] else [])"

definition escaped :: "string \<Rightarrow> nat list" where
  "escaped s = (if take 1 s = [BSL] \<and> 2 \<le> length s then [2] else [])"

text \<open>
  The operators, in the order of the pattern (some are listed twice there). \<^verbatim>\<open>##\<close> and \<^verbatim>\<open>#\<close> are
  operators of the preprocessor flavour \<open>pp\<close> only. The first operator of the list that the
  text starts with is the match.
\<close>

definition operators :: "bool \<Rightarrow> string list" where
  "operators pp =
     ['','', '';'', ''?'', '':'', ''!'', ''~'', ''<<='', ''>>='']
     @ (if pp then [''##''] else [])
     @ [''++'', ''--'', ''->'', ''++'', ''--'', ''<<'', ''>>'', ''<='', ''>='', ''=='', ''!='',
        ''&&'', ''||'', ''+='', ''-='', ''*='', ''/='', ''%='', ''&='', ''^='', ''|='']
     @ (if pp then [''#''] else [])
     @ [''.'', ''+'', ''-'', ''*'', ''&'', ''/'', ''%'', ''+'', ''-'', ''<'', ''>'',
        ''&'', ''^'', ''|'', ''='', ''@'']"

definition operator :: "bool \<Rightarrow> string \<Rightarrow> nat list" where
  "operator pp s =
     (case filter (\<lambda>op. take (length op) s = op) (operators pp) of
        [] \<Rightarrow> []
      | op # _ \<Rightarrow> [length op])"

text \<open>\<^verbatim>\<open>\w++\<close>\<close>

definition word :: "string \<Rightarrow> nat list" where
  "word s = (let n = length (takeWhile is_word s) in if 0 < n then [n] else [])"

text \<open>
  A bracket group \<^verbatim>\<open>(?> \( (?&TOKEN)* \) )\<close>: \<open>inner\<close> lists the lengths that \<^verbatim>\<open>(?&TOKEN)*\<close> can
  take after the opening bracket, the longest first; the first of them that is followed by
  the closing bracket gives the match.
\<close>

definition closing :: "char \<Rightarrow> string \<Rightarrow> nat list \<Rightarrow> nat list" where
  "closing cl r ways =
     (case filter (\<lambda>n. nth_is r n cl) ways of [] \<Rightarrow> [] | n # _ \<Rightarrow> [n + 2])"

definition bracket_group :: "char \<Rightarrow> char \<Rightarrow> string \<Rightarrow> nat list \<Rightarrow> nat list" where
  "bracket_group opn cl s inner = (if take 1 s = [opn] then closing cl (drop 1 s) inner else [])"

definition opens :: "string \<Rightarrow> bool" where
  "opens s = (case s of [] \<Rightarrow> False | c # _ \<Rightarrow> c = CHR ''{'' \<or> c = CHR ''('' \<or> c = CHR ''['')"

text \<open>The alternatives of \<^verbatim>\<open>TOKEN\<close> in their order.\<close>

definition token_alts :: "bool \<Rightarrow> string \<Rightarrow> nat list \<Rightarrow> nat list" where
  "token_alts pp s inner =
     line_comment (\<not> pp) s @ block_comment s @ quoted DQ s @ quoted SQ s
     @ bracket_group (CHR ''{'') (CHR ''}'') s inner
     @ bracket_group (CHR ''('') (CHR '')'') s inner
     @ bracket_group (CHR ''['') (CHR '']'') s inner
     @ newline s @ hspace s @ escaped s @ operator pp s @ word s"

text \<open>
  \<open>TOKEN True\<close> is the pattern \<^verbatim>\<open>TOKEN\<close> of \<^verbatim>\<open>re_token_preproc\<close>, \<open>TOKEN_star\<close> is \<^verbatim>\<open>(?&TOKEN)*\<close>: all
  the ways to match tokens one after the other, those with more tokens first, and \<open>0\<close> (no
  token) last. A call \<^verbatim>\<open>(?&TOKEN)\<close> can be entered again on backtracking and then gives its next
  alternative.

  Modelled from the spec: the pattern \<^verbatim>\<open>re_token\<close> of \<^verbatim>\<open>internal.py\<close>, which is not among the
  sources, is \<open>TOKEN False\<close>. \<^verbatim>\<open>macro.py\<close> says of \<^verbatim>\<open>re_token_preproc\<close> that "The difference from
  re_token is that # and ## are operators rather than preprocessor directives", and the
  specification (4.1) that the preprocessor variant "treats # and ## as ordinary operator
  tokens instead of directive markers": \<open>TOKEN False\<close> has no operators \<^verbatim>\<open>##\<close> and \<^verbatim>\<open>#\<close>, and its
  first alternative also takes a directive line, as the first pattern of \<^verbatim>\<open>Macros.expand\<close> does.
\<close>

function TOKEN :: "bool \<Rightarrow> string \<Rightarrow> nat list"
  and TOKEN_star :: "bool \<Rightarrow> string \<Rightarrow> nat list"
  and TOKEN_iter :: "bool \<Rightarrow> string \<Rightarrow> nat list \<Rightarrow> nat list"
where
  "TOKEN pp s = token_alts pp s (if opens s then TOKEN_star pp (tl s) else [])"
| "TOKEN_star pp s = TOKEN_iter pp s (TOKEN pp s) @ [0]"
| "TOKEN_iter pp s [] = []"
| "TOKEN_iter pp s (t # ts) =
     (if 0 < t \<and> t \<le> length s then map ((+) t) (TOKEN_star pp (drop t s)) else [])
     @ TOKEN_iter pp s ts"
  by pat_completeness auto
termination
  by (relation "measures
        [\<lambda>x. case x of Inl (pp, s) \<Rightarrow> length s | Inr (Inl (pp, s)) \<Rightarrow> length s
               | Inr (Inr (pp, s, ts)) \<Rightarrow> length s,
         \<lambda>x. case x of Inl _ \<Rightarrow> 0 | Inr (Inl _) \<Rightarrow> 2 | Inr (Inr _) \<Rightarrow> 1,
         \<lambda>x. case x of Inr (Inr (pp, s, ts)) \<Rightarrow> length ts | _ \<Rightarrow> 0]")
    (auto simp: opens_def split: list.splits)

declare TOKEN.simps [simp del] TOKEN_star.simps [simp del] TOKEN_iter.simps [simp del]

text \<open>The first match of \<^verbatim>\<open>(?&TOKEN)\<close> at the start of \<open>s\<close>, if there is one.\<close>

definition token_len :: "bool \<Rightarrow> string \<Rightarrow> nat option" where
  "token_len pp s = (case TOKEN pp s of [] \<Rightarrow> None | n # _ \<Rightarrow> Some n)"

subsection \<open>A token is not empty and lies in the text\<close>

lemma skip_line_items_le: "skip_line_items s \<le> length s"
  by (induction s rule: skip_line_items.induct) (auto split: list.splits)

lemma skip_block_items_le: "skip_block_items s \<le> length s"
  by (induction s rule: skip_block_items.induct) (auto split: list.splits)

lemma skip_quoted_items_le: "skip_quoted_items q s \<le> length s"
  by (induction q s rule: skip_quoted_items.induct) (auto split: list.splits)

lemma nth_is_less: "nth_is s n c \<Longrightarrow> n < length s"
  by (cases "n < length s") (auto simp: nth_is_def)

lemma take_eq_length: "take n s = t \<Longrightarrow> length t = n \<Longrightarrow> n \<le> length s"
  by (metis length_take min.cobounded1)

lemma line_comment_bounds: "n \<in> set (line_comment h s) \<Longrightarrow> 0 < n \<and> n \<le> length s"
  by (auto simp: line_comment_def Let_def dest!: nth_is_less split: if_splits)

lemma block_comment_bounds: "n \<in> set (block_comment s) \<Longrightarrow> 0 < n \<and> n \<le> length s"
proof -
  assume a: "n \<in> set (block_comment s)"
  define m where "m = 2 + skip_block_items (drop 2 s)"
  from a have n: "n = m + 2" and t: "take 2 (drop m s) = ''*/''"
    by (auto simp: block_comment_def Let_def m_def split: if_splits)
  from t have "2 \<le> length (drop m s)" by (rule take_eq_length) simp
  with n show ?thesis by simp
qed

lemma quoted_bounds: "n \<in> set (quoted q s) \<Longrightarrow> 0 < n \<and> n \<le> length s"
  by (auto simp: quoted_def Let_def dest!: nth_is_less split: if_splits)

lemma newline_bounds: "n \<in> set (newline s) \<Longrightarrow> 0 < n \<and> n \<le> length s"
  by (cases s) (auto simp: newline_def split: if_splits)

lemma hspace_bounds: "n \<in> set (hspace s) \<Longrightarrow> 0 < n \<and> n \<le> length s"
  by (auto simp: hspace_def Let_def length_takeWhile_le split: if_splits)

lemma escaped_bounds: "n \<in> set (escaped s) \<Longrightarrow> 0 < n \<and> n \<le> length s"
  by (auto simp: escaped_def split: if_splits)

lemma word_bounds: "n \<in> set (word s) \<Longrightarrow> 0 < n \<and> n \<le> length s"
  by (auto simp: word_def Let_def length_takeWhile_le split: if_splits)

lemma operators_nonempty: "op \<in> set (operators pp) \<Longrightarrow> op \<noteq> []"
  by (auto simp: operators_def split: if_splits)

lemma operator_bounds: "n \<in> set (operator pp s) \<Longrightarrow> 0 < n \<and> n \<le> length s"
proof -
  assume a: "n \<in> set (operator pp s)"
  show ?thesis
  proof (cases "filter (\<lambda>op. take (length op) s = op) (operators pp)")
    case Nil
    with a show ?thesis by (simp add: operator_def)
  next
    case (Cons op ops)
    with a have n: "n = length op" by (simp add: operator_def)
    from Cons have "op \<in> set (filter (\<lambda>op. take (length op) s = op) (operators pp))" by simp
    then have "op \<in> set (operators pp)" and t: "take (length op) s = op" by auto
    then have "op \<noteq> []" by (simp add: operators_nonempty)
    moreover from t have "length op \<le> length s" by (rule take_eq_length) simp
    ultimately show ?thesis using n by simp
  qed
qed

lemma closing_bounds: "n \<in> set (closing cl r inner) \<Longrightarrow> 2 \<le> n \<and> n \<le> length r + 1"
proof -
  assume a: "n \<in> set (closing cl r inner)"
  show ?thesis
  proof (cases "filter (\<lambda>n. nth_is r n cl) inner")
    case Nil
    with a show ?thesis by (simp add: closing_def)
  next
    case (Cons k ks)
    with a have n: "n = k + 2" by (simp add: closing_def)
    from Cons have "k \<in> set (filter (\<lambda>n. nth_is r n cl) inner)" by simp
    then have "nth_is r k cl" by simp
    then have "k < length r" by (rule nth_is_less)
    with n show ?thesis by simp
  qed
qed

lemma bracket_group_bounds: "n \<in> set (bracket_group opn cl s inner) \<Longrightarrow> 0 < n \<and> n \<le> length s"
  by (cases s) (auto simp: bracket_group_def dest!: closing_bounds split: if_splits)

lemma token_alts_bounds: "n \<in> set (token_alts pp s inner) \<Longrightarrow> 0 < n \<and> n \<le> length s"
  unfolding token_alts_def set_append Un_iff
  apply (elim disjE)
             apply (erule line_comment_bounds)
            apply (erule block_comment_bounds)
           apply (erule quoted_bounds)
          apply (erule quoted_bounds)
         apply (erule bracket_group_bounds)
        apply (erule bracket_group_bounds)
       apply (erule bracket_group_bounds)
      apply (erule newline_bounds)
     apply (erule hspace_bounds)
    apply (erule escaped_bounds)
   apply (erule operator_bounds)
  apply (erule word_bounds)
  done

lemma TOKEN_bounds: "n \<in> set (TOKEN pp s) \<Longrightarrow> 0 < n \<and> n \<le> length s"
  by (subst (asm) TOKEN.simps) (rule token_alts_bounds)
lemma token_len_bounds: "token_len pp s = Some n \<Longrightarrow> 0 < n \<and> n \<le> length s"
  using TOKEN_bounds [of n pp s] by (auto simp: token_len_def split: list.splits)

subsection \<open>Scanning a text for tokens\<close>

text \<open>
  \<^verbatim>\<open>finditer\<close> of a pattern \<^verbatim>\<open>(?&TOKEN)\<close> with the tokens built as in \<^verbatim>\<open>TokenList.xFromText\<close>:
  \<^verbatim>\<open>Token(i, x.span(), x[0])\<close>. The scan tries the pattern at the current offset; a match
  gives a token and the scan goes on behind it; where nothing matches the scan moves on by one
  character, and that character is in no token. \<open>pos\<close> is the offset of \<open>s\<close> in the whole text.
\<close>

function finditer :: "bool \<Rightarrow> nat \<Rightarrow> nat \<Rightarrow> string \<Rightarrow> Token list" where
  "finditer pp i pos [] = []"
| "finditer pp i pos (c # r) =
     (case token_len pp (c # r) of
        None \<Rightarrow> finditer pp i (pos + 1) r
      | Some n \<Rightarrow>
          \<lparr>tok_idx = i, tok_range = (pos, pos + n), tok_value = take n (c # r)\<rparr>
            # finditer pp (i + 1) (pos + n) (drop n (c # r)))"
  by pat_completeness auto
termination
  by (relation "measure (\<lambda>(pp, i, pos, s). length s)") (auto dest: token_len_bounds)

declare finditer.simps [simp del]

text \<open>
  Modelled from the spec: \<^verbatim>\<open>reg_token\<close> of \<^verbatim>\<open>internal.py\<close>, which is not among the sources, is
  the compiled pattern \<^verbatim>\<open>(?&TOKEN)\<close> over \<^verbatim>\<open>re_token\<close>, as \<^verbatim>\<open>reg_token_preproc\<close> is over
  \<^verbatim>\<open>re_token_preproc\<close>. \<^verbatim>\<open>TokenList.xFromText\<close> itself is \<^verbatim>\<open>ctoken.py\<close>.
\<close>

definition xFromText :: "string \<Rightarrow> Token list" where
  "xFromText txt = finditer False 0 0 txt"

text \<open>
  \<^verbatim>\<open>is_wellformed\<close> (\<^verbatim>\<open>macro.py\<close>): the matches of \<^verbatim>\<open>reg_token_preproc\<close> follow one another without
  a gap from offset 0 to the end of the text.
\<close>

fun wellformed_loop :: "nat \<Rightarrow> Token list \<Rightarrow> nat option" where
  "wellformed_loop offset [] = Some offset"
| "wellformed_loop offset (t # ts) =
     (if fst (tok_range t) \<noteq> offset then None else wellformed_loop (snd (tok_range t)) ts)"

definition is_wellformed :: "string \<Rightarrow> bool" where
  "is_wellformed txt =
     (case wellformed_loop 0 (finditer True 0 0 txt) of
        None \<Rightarrow> False
      | Some offset \<Rightarrow> offset = length txt)"

section \<open>Macros (\<^verbatim>\<open>macro.py\<close>)\<close>

subsection \<open>Macro definitions\<close>

text \<open>\<^verbatim>\<open>str.replace\<close> of one character by a text.\<close>

definition replace_char :: "char \<Rightarrow> string \<Rightarrow> string \<Rightarrow> string" where
  "replace_char c new s = concat (map (\<lambda>x. if x = c then new else [x]) s)"

text \<open>
  \<^verbatim>\<open>c_string_escape\<close>: the backslash is doubled first, then line feed, tab and the double quote
  are written as escapes.
\<close>

definition c_string_escape :: "string \<Rightarrow> string" where
  "c_string_escape txt =
     replace_char DQ [BSL, DQ]
       (replace_char (CHR 0x09) [BSL, CHR ''t'']
          (replace_char NL [BSL, CHR ''n'']
             (replace_char BSL [BSL, BSL] txt)))"

text \<open>
  The dataclass \<^verbatim>\<open>MacroParts\<close>. \<^verbatim>\<open>args\<close> is \<open>None\<close> for an object-like macro and the list of
  parameters (possibly empty) for a function-like one.
\<close>

record MacroParts =
  mp_name :: Token
  mp_args :: "Token list option"
  mp_body :: "Token option"
  mp_preComment :: "Token option"
  is_va_args :: bool
  mp_is_wellformed :: bool

text \<open>
  The constructor with \<^verbatim>\<open>__post_init__\<close>, which sets the flag:
  \<^verbatim>\<open>self.is_wellformed = is_wellformed(self.body.value) if self.body else True\<close>. A token is an
  object without \<^verbatim>\<open>__bool__\<close> or \<^verbatim>\<open>__len__\<close>, so \<^verbatim>\<open>self.body\<close> is false for \<^verbatim>\<open>None\<close> only.
\<close>

definition MacroParts_init ::
  "Token \<Rightarrow> Token list option \<Rightarrow> Token option \<Rightarrow> Token option \<Rightarrow> bool \<Rightarrow> MacroParts" where
  "MacroParts_init name args body preComment va =
     \<lparr>mp_name = name, mp_args = args, mp_body = body, mp_preComment = preComment,
      is_va_args = va,
      mp_is_wellformed = (case body of None \<Rightarrow> True | Some b \<Rightarrow> is_wellformed (tok_value b))\<rparr>"

text \<open>
  The normalization of the body in \<^verbatim>\<open>MacroParts.fromStatement\<close>:
  \<^verbatim>\<open>body.value = clean_text_sz(body.value.replace("\\\n", " \n").strip())\<close>.
  \<open>replace_continuations\<close> is the \<^verbatim>\<open>replace\<close>: from the left, each backslash followed by a line
  feed becomes a blank followed by a line feed. \<^verbatim>\<open>clean_text_sz\<close> (\<^verbatim>\<open>common.py\<close>) substitutes the
  matches of \<^verbatim>\<open>reg_clean\<close> with the help of \<^verbatim>\<open>reg_cr\<close> and \<^verbatim>\<open>getTokenKind\<close>, all three of the
  missing \<^verbatim>\<open>internal.py\<close>: the function is a parameter of the normalization.
\<close>

fun replace_continuations :: "string \<Rightarrow> string" where
  "replace_continuations [] = []"
| "replace_continuations [c] = [c]"
| "replace_continuations (c # d # r) =
     (if c = BSL \<and> d = NL then CHR '' '' # NL # replace_continuations r
      else c # replace_continuations (d # r))"

definition normalize_body :: "(string \<Rightarrow> string) \<Rightarrow> string \<Rightarrow> string" where
  "normalize_body clean_text_sz body = clean_text_sz (strip (replace_continuations body))"

text \<open>
  Modelled from the spec: \<^verbatim>\<open>reg_clean\<close>, \<^verbatim>\<open>reg_cr\<close> and \<^verbatim>\<open>getTokenKind\<close> of \<^verbatim>\<open>internal.py\<close> are not
  among the sources. \<^verbatim>\<open>clean_text_sz\<close> replaces a match that is a comment or a directive by
  blanks and every other match by itself ("Remove comments and preprocessor directives,
  preserving newlines and text size"): on a text without comment and directive it is the
  identity, which is all that \<open>clean_plain\<close> models.
\<close>

definition clean_plain :: "string \<Rightarrow> string" where
  "clean_plain s = s"

text \<open>
  The registry \<^verbatim>\<open>Macros\<close>: the dictionary \<^verbatim>\<open>macros\<close>, as the list of its items in insertion
  order, and the list \<^verbatim>\<open>errors\<close>.
\<close>

record Macros =
  macros :: "(string \<times> MacroParts) list"
  errors :: "string list"

text \<open>\<^verbatim>\<open>d[k] = v\<close> on such a list: a key that is present keeps its place.\<close>

fun dict_set :: "'k \<Rightarrow> 'v \<Rightarrow> ('k \<times> 'v) list \<Rightarrow> ('k \<times> 'v) list" where
  "dict_set k v [] = [(k, v)]"
| "dict_set k v ((k', v') # d) = (if k = k' then (k, v) # d else (k', v') # dict_set k v d)"

text \<open>\<^verbatim>\<open>Macros.add\<close>\<close>

definition add :: "Macros \<Rightarrow> MacroParts \<Rightarrow> Macros" where
  "add self m = self\<lparr>macros := dict_set (tok_value (mp_name m)) m (macros self)\<rparr>"

subsection \<open>The pattern of the macro names\<close>

text \<open>
  \<^verbatim>\<open>\b\<close> between two neighbouring characters (\<open>None\<close> at an end of the text): exactly one of
  them is a word character.
\<close>

definition word_boundary :: "char option \<Rightarrow> char option \<Rightarrow> bool" where
  "word_boundary a b =
     ((case a of None \<Rightarrow> False | Some c \<Rightarrow> is_word c)
        \<noteq> (case b of None \<Rightarrow> False | Some c \<Rightarrow> is_word c))"

definition next_char :: "string \<Rightarrow> char option" where
  "next_char s = (case s of [] \<Rightarrow> None | c # _ \<Rightarrow> Some c)"

text \<open>
  \<^verbatim>\<open>\b(?:\L<names>)\b\<close> at the start of \<open>s\<close>, where \<open>prev\<close> is the character before \<open>s\<close>: the
  names of the list that match there.
\<close>

definition name_candidates :: "string list \<Rightarrow> char option \<Rightarrow> string \<Rightarrow> string list" where
  "name_candidates nms prev s =
     filter (\<lambda>n. n \<noteq> [] \<and> take (length n) s = n
                 \<and> word_boundary prev (next_char s)
                 \<and> word_boundary (Some (last n)) (next_char (drop (length n) s)))
       nms"

text \<open>
  \<^verbatim>\<open>(?P<args>(?P<spc>\s*+)\((?P<list>(?&TOKEN)*+)\))\<close> over \<^verbatim>\<open>re_token\<close>, at the start of \<open>r\<close>: the
  white space and the tokens are taken possessively, so there is at most one match, given
  by the length \<open>k\<close> of the white space and the length \<open>l\<close> of the list.
\<close>

definition call_args :: "string \<Rightarrow> (nat \<times> nat) list" where
  "call_args r =
     (let k = length (takeWhile is_space r);
          inner = drop (k + 1) r;
          l = hd (TOKEN_star False inner)
      in if nth_is r k (CHR ''('') \<and> nth_is inner l (CHR '')'') then [(k, l)] else [])"

text \<open>
  A match of \<^verbatim>\<open>_names_reg\<close>: a comment, directive line, string or character literal of the
  given length (no group \<^verbatim>\<open>name\<close>), the name of an object-like macro, or the name of a
  function-like macro with the lengths of the white space and of the argument list.
\<close>

datatype names_match = Verbatim nat | Obj string | Fn string nat nat

fun match_len :: "names_match \<Rightarrow> nat" where
  "match_len (Verbatim n) = n"
| "match_len (Obj name) = length name"
| "match_len (Fn name k l) = length name + k + l + 2"

definition fn_candidates :: "string list \<Rightarrow> char option \<Rightarrow> string \<Rightarrow> (string \<times> nat \<times> nat) list" where
  "fn_candidates fns prev s =
     concat (map (\<lambda>name. map (Pair name) (call_args (drop (length name) s)))
               (name_candidates fns prev s))"

text \<open>
  The pattern that \<^verbatim>\<open>Macros.expand\<close> compiles, tried at the start of \<open>s\<close>: the alternatives in
  their order, the first that matches wins.
\<close>

definition names_reg_match ::
  "string list \<Rightarrow> string list \<Rightarrow> char option \<Rightarrow> string \<Rightarrow> names_match option" where
  "names_reg_match objs fns prev s =
     (case line_comment True s @ block_comment s @ quoted DQ s @ quoted SQ s of
        n # _ \<Rightarrow> Some (Verbatim n)
      | [] \<Rightarrow>
         (case name_candidates objs prev s of
            name # _ \<Rightarrow> Some (Obj name)
          | [] \<Rightarrow>
             (case fn_candidates fns prev s of
                (name, k, l) # _ \<Rightarrow> Some (Fn name k l)
              | [] \<Rightarrow> None)))"

text \<open>\<^verbatim>\<open>obj_like_names\<close> and \<^verbatim>\<open>fn_like_names\<close> of \<^verbatim>\<open>Macros.expand\<close>.\<close>

definition obj_like_names :: "(string \<times> MacroParts) list \<Rightarrow> string list" where
  "obj_like_names ms = map fst (filter (\<lambda>kv. mp_args (snd kv) = None) ms)"

definition fn_like_names :: "(string \<times> MacroParts) list \<Rightarrow> string list" where
  "fn_like_names ms = map fst (filter (\<lambda>kv. mp_args (snd kv) \<noteq> None) ms)"

subsection \<open>The arguments of a call\<close>

text \<open>\<^verbatim>\<open>args_val[-1].append(token_arg)\<close>\<close>

definition append_last :: "'a list list \<Rightarrow> 'a \<Rightarrow> 'a list list" where
  "append_last acc t = butlast acc @ [last acc @ [t]]"

text \<open>
  The loop of \<^verbatim>\<open>_expand_fn_like\<close> over the tokens of the argument list; \<open>n\<close> is
  \<^verbatim>\<open>len(macro.args)\<close> and \<open>va\<close> is \<^verbatim>\<open>macro.is_va_args\<close>. A comma opens a new argument while
  fewer than \<open>n\<close> are open; after that it ends the loop, or with \<open>va\<close> goes into the last
  argument.
\<close>

fun parse_args_loop :: "nat \<Rightarrow> bool \<Rightarrow> Token list \<Rightarrow> Token list list \<Rightarrow> Token list list" where
  "parse_args_loop n va [] args_val = args_val"
| "parse_args_loop n va (t # ts) args_val =
     (if tok_value t = '','' then
        (if length args_val < n then parse_args_loop n va ts (args_val @ [[]])
         else if \<not> va then args_val
         else parse_args_loop n va ts (append_last args_val t))
      else parse_args_loop n va ts (append_last args_val t))"

definition parse_args :: "nat \<Rightarrow> bool \<Rightarrow> string \<Rightarrow> Token list list" where
  "parse_args n va lst = parse_args_loop n va (xFromText lst) [[]]"

text \<open>
  \<^verbatim>\<open>args_dict\<close>, of which only the token values are read: the parameter names with the texts
  \<^verbatim>\<open>"".join(v.strings()).strip()\<close> of the arguments.
\<close>

definition mk_args_dict :: "Token list \<Rightarrow> Token list list \<Rightarrow> (string \<times> string) list" where
  "mk_args_dict params args_val =
     fold (\<lambda>(k, v) d. dict_set (tok_value k) (strip (concat (map tok_value v))) d)
       (zip params args_val) []"

subsection \<open>The substitution pass\<close>

text \<open>
  \<^verbatim>\<open>(?>\s*+(\#\#)\s*+(?P<n>\w++))++\<close> at the start of \<open>s\<close>: the length of the run and the words
  captured, \<open>(0, [])\<close> when there is none.
\<close>

function paste_chain :: "string \<Rightarrow> nat \<times> string list" where
  "paste_chain s =
     (let k1 = length (takeWhile is_space s);
          s1 = drop (k1 + 2) s;
          k2 = length (takeWhile is_space s1);
          w = takeWhile is_word (drop k2 s1);
          n = k1 + 2 + k2 + length w
      in if take 2 (drop k1 s) = ''##'' \<and> w \<noteq> []
         then (case paste_chain (drop n s) of (m, ws) \<Rightarrow> (n + m, w # ws))
         else (0, []))"
  by pat_completeness auto
termination
proof (relation "measure length")
  show "wf (measure length)" by simp
next
  fix s :: string and k1 :: nat and s1 :: string and k2 :: nat and w :: string and n :: nat
  assume k1: "k1 = length (takeWhile is_space s)" and n: "n = k1 + 2 + k2 + length w"
    and c: "take 2 (drop k1 s) = ''##'' \<and> w \<noteq> []"
  from c have "2 \<le> length (drop k1 s)" by (intro take_eq_length [of 2 "drop k1 s" "''##''"]) auto
  then have "0 < length s" by auto
  moreover from n have "0 < n" by simp
  ultimately show "(drop n s, s) \<in> measure length" by simp
qed

declare paste_chain.simps [simp del]

text \<open>
  A match of \<^verbatim>\<open>reg_macro_subst\<close> with its length: \<^verbatim>\<open>#\<close> and a word (group \<^verbatim>\<open>h\<close>), a word followed
  by a run of \<^verbatim>\<open>## word\<close> (group \<^verbatim>\<open>hh\<close>, with all the words captured), or a parameter name.
\<close>

datatype subst_match = Stringize nat string | Paste nat "string list" | Param nat string

fun subst_len :: "subst_match \<Rightarrow> nat" where
  "subst_len (Stringize n w) = n"
| "subst_len (Paste n ws) = n"
| "subst_len (Param n w) = n"

definition subst_match_at :: "string list \<Rightarrow> char option \<Rightarrow> string \<Rightarrow> subst_match option" where
  "subst_match_at nms prev s =
     (let k = length (takeWhile is_space (drop 1 s));
          w = takeWhile is_word (drop (1 + k) s);
          w0 = takeWhile is_word s;
          chain = paste_chain (drop (length w0) s)
      in if take 1 s = ''#'' \<and> w \<noteq> [] then Some (Stringize (1 + k + length w) w)
         else if w0 \<noteq> [] \<and> snd chain \<noteq> [] then Some (Paste (length w0 + fst chain) (w0 # snd chain))
         else (case name_candidates nms prev s of
                 name # _ \<Rightarrow> Some (Param (length name) name)
               | [] \<Rightarrow> None))"

text \<open>
  The replacement: \<^verbatim>\<open>_arg_c_escape\<close> for \<^verbatim>\<open>h\<close>, \<^verbatim>\<open>_concat_hh\<close> for \<^verbatim>\<open>hh\<close>, and the expanded argument
  for a parameter (a name that the pattern matched is a key of the dictionary).
\<close>

definition subst_repl ::
  "(string \<times> string) list \<Rightarrow> (string \<times> string) list \<Rightarrow> subst_match \<Rightarrow> string" where
  "subst_repl args_dict args_dict_expanded m =
     (case m of
        Stringize n w \<Rightarrow>
          (case map_of args_dict w of
             Some v \<Rightarrow> [DQ] @ c_string_escape v @ [DQ]
           | None \<Rightarrow> [DQ, DQ])
      | Paste n ws \<Rightarrow>
          concat (map (\<lambda>name. case map_of args_dict name of Some v \<Rightarrow> v | None \<Rightarrow> name) ws)
      | Param n w \<Rightarrow>
          (case map_of args_dict_expanded w of Some v \<Rightarrow> v | None \<Rightarrow> []))"

lemma name_candidates_nonempty: "n \<in> set (name_candidates nms prev s) \<Longrightarrow> n \<noteq> [] \<and> length n \<le> length s \<and> n \<in> set nms"
  by (auto simp: name_candidates_def dest: take_eq_length)

lemma subst_match_at_pos: "subst_match_at nms prev s = Some m \<Longrightarrow> 0 < subst_len m"
proof -
  assume a: "subst_match_at nms prev s = Some m"
  show ?thesis
  proof (cases "name_candidates nms prev s")
    case Nil
    with a show ?thesis
      by (auto simp: subst_match_at_def Let_def split: if_splits)
  next
    case (Cons name rest)
    then have "name \<in> set (name_candidates nms prev s)" by simp
    then have "name \<noteq> []" by (simp add: name_candidates_nonempty)
    with a Cons show ?thesis
      by (auto simp: subst_match_at_def Let_def split: if_splits)
  qed
qed

text \<open>
  \<^verbatim>\<open>reg_macro_subst.sub(...)\<close>: the text is scanned from the left; a match is replaced and the scan
  goes on behind it, a character where nothing matches is copied.
\<close>

function subst_loop ::
  "(string \<times> string) list \<Rightarrow> (string \<times> string) list \<Rightarrow> char option \<Rightarrow> string \<Rightarrow> string" where
  "subst_loop ad ade prev [] = []"
| "subst_loop ad ade prev (c # r) =
     (case subst_match_at (map fst ad) prev (c # r) of
        None \<Rightarrow> c # subst_loop ad ade (Some c) r
      | Some m \<Rightarrow>
          subst_repl ad ade m
            @ subst_loop ad ade (Some ((c # r) ! (subst_len m - 1))) (drop (subst_len m) (c # r)))"
  by pat_completeness auto
termination
  by (relation "measure (\<lambda>(ad, ade, prev, s). length s)") (auto dest: subst_match_at_pos)

declare subst_loop.simps [simp del]

definition macro_subst ::
  "(string \<times> string) list \<Rightarrow> (string \<times> string) list \<Rightarrow> string \<Rightarrow> string" where
  "macro_subst ad ade body = subst_loop ad ade None body"

subsection \<open>Bounds on the matches and on the arguments\<close>

lemma verbatim_bounds:
  "line_comment h s @ block_comment s @ quoted DQ s @ quoted SQ s = n # ns \<Longrightarrow> 0 < n \<and> n \<le> length s"
proof -
  assume "line_comment h s @ block_comment s @ quoted DQ s @ quoted SQ s = n # ns"
  then have "n \<in> set (line_comment h s @ block_comment s @ quoted DQ s @ quoted SQ s)" by simp
  then show ?thesis
    using line_comment_bounds block_comment_bounds quoted_bounds by auto
qed

lemma call_args_bounds: "(k, l) \<in> set (call_args r) \<Longrightarrow> k + l + 2 \<le> length r"
proof -
  assume "(k, l) \<in> set (call_args r)"
  then have "nth_is (drop (k + 1) r) l (CHR '')'')"
    by (auto simp: call_args_def Let_def split: if_splits)
  then have "l < length (drop (k + 1) r)" by (rule nth_is_less)
  then show ?thesis by simp
qed

lemma names_reg_match_Fn:
  assumes "names_reg_match objs fns prev s = Some (Fn name k l)"
  shows "name \<noteq> [] \<and> length name + k + l + 2 \<le> length s \<and> name \<in> set fns"
proof -
  from assms obtain rest where "fn_candidates fns prev s = (name, k, l) # rest"
    by (auto simp: names_reg_match_def split: list.splits)
  then have "(name, k, l) \<in> set (fn_candidates fns prev s)" by simp
  then have c: "name \<in> set (name_candidates fns prev s)"
    and a: "(k, l) \<in> set (call_args (drop (length name) s))"
    by (auto simp: fn_candidates_def)
  from c have "name \<noteq> []" "length name \<le> length s" "name \<in> set fns"
    by (simp_all add: name_candidates_nonempty)
  moreover from a have "k + l + 2 \<le> length (drop (length name) s)" by (rule call_args_bounds)
  ultimately show ?thesis by simp
qed

lemma names_reg_match_Obj:
  assumes "names_reg_match objs fns prev s = Some (Obj name)"
  shows "name \<noteq> [] \<and> length name \<le> length s \<and> name \<in> set objs"
proof -
  from assms have "name \<in> set (name_candidates objs prev s)"
    by (auto simp: names_reg_match_def split: list.splits)
  then show ?thesis by (simp add: name_candidates_nonempty)
qed

lemma names_reg_match_Verbatim:
  assumes "names_reg_match objs fns prev s = Some (Verbatim n)"
  shows "0 < n \<and> n \<le> length s"
proof -
  from assms obtain ns where
    "line_comment True s @ block_comment s @ quoted DQ s @ quoted SQ s = n # ns"
    by (auto simp: names_reg_match_def split: list.splits)
  then show ?thesis by (rule verbatim_bounds)
qed

lemma names_reg_match_len:
  "names_reg_match objs fns prev s = Some m \<Longrightarrow> 0 < match_len m \<and> match_len m \<le> length s"
  by (cases m)
    (auto dest: names_reg_match_Verbatim names_reg_match_Obj names_reg_match_Fn)

definition weight :: "Token list \<Rightarrow> nat" where
  "weight ts = sum_list (map (\<lambda>t. length (tok_value t)) ts)"

lemma weight_append: "weight (xs @ ys) = weight xs + weight ys"
  by (simp add: weight_def)

lemma weight_Cons: "weight (t # ts) = length (tok_value t) + weight ts"
  by (simp add: weight_def)

lemma weight_Nil: "weight [] = 0"
  by (simp add: weight_def)

lemma finditer_weight: "weight (finditer pp i pos s) \<le> length s"
proof (induction pp i pos s rule: finditer.induct)
  case (1 pp i pos)
  then show ?case by (simp add: weight_Nil finditer.simps)
next
  case (2 pp i pos c r)
  show ?case
  proof (cases "token_len pp (c # r)")
    case None
    with 2 show ?thesis by (simp add: finditer.simps)
  next
    case (Some n)
    then have n: "0 < n \<and> n \<le> length (c # r)" by (rule token_len_bounds)
    from 2(2) [OF Some]
    have "weight (finditer pp (i + 1) (pos + n) (drop n (c # r))) \<le> length (c # r) - n"
      by simp
    with n have "n + weight (finditer pp (i + 1) (pos + n) (drop n (c # r))) \<le> length (c # r)"
      by arith
    moreover from n have "length (take n (c # r)) = n" by simp
    ultimately show ?thesis using Some
      by (simp add: weight_Cons finditer.simps del: take_Suc_Cons length_take)
  qed
qed

lemma concat_append_last: "acc \<noteq> [] \<Longrightarrow> concat (append_last acc t) = concat acc @ [t]"
proof -
  assume "acc \<noteq> []"
  then have "concat acc = concat (butlast acc) @ last acc"
    by (metis append_butlast_last_id concat.simps(1,2) concat_append append_Nil2)
  then show ?thesis by (simp add: append_last_def)
qed

lemma append_last_nonempty: "append_last acc t \<noteq> []"
  by (simp add: append_last_def)

lemma parse_args_loop_weight:
  "acc \<noteq> [] \<Longrightarrow> weight (concat (parse_args_loop n va ts acc)) \<le> weight (concat acc) + weight ts"
proof (induction ts arbitrary: acc)
  case Nil
  then show ?case by simp
next
  case (Cons t ts)
  have a: "weight (concat (parse_args_loop n va ts (append_last acc t)))
             \<le> weight (concat acc) + weight (t # ts)"
    using Cons.IH [of "append_last acc t"] Cons.prems
    by (simp add: append_last_nonempty concat_append_last weight_append weight_Cons weight_Nil)
  have b: "weight (concat (parse_args_loop n va ts (acc @ [[]])))
             \<le> weight (concat acc) + weight (t # ts)"
    using Cons.IH [of "acc @ [[]]"] by (simp add: weight_Cons)
  have c: "weight (concat acc) \<le> weight (concat acc) + weight (t # ts)" by simp
  show ?case using a b c by (cases va) (simp_all del: concat_append)
qed

lemma parse_args_weight: "weight (concat (parse_args n va lst)) \<le> length lst"
  using parse_args_loop_weight [of "[[]]" n va "xFromText lst"] finditer_weight [of False 0 0 lst]
  by (simp add: parse_args_def xFromText_def weight_Nil)

lemma weight_member: "a \<in> set args_val \<Longrightarrow> length (concat (map tok_value a)) \<le> weight (concat args_val)"
proof (induction args_val)
  case Nil
  then show ?case by simp
next
  case (Cons x xs)
  have "length (concat (map tok_value x)) = weight x"
    by (induction x) (simp_all add: weight_def)
  with Cons show ?case by (auto simp: weight_append)
qed

lemma strip_le: "length (strip s) \<le> length s"
proof -
  have "length (strip s) \<le> length (dropWhile py_isspace s)"
    using length_dropWhile_le [of py_isspace "rev (dropWhile py_isspace s)"]
    by (simp add: strip_def)
  also have "\<dots> \<le> length s" by (rule length_dropWhile_le)
  finally show ?thesis .
qed

lemma dict_set_member: "(k, v) \<in> set (dict_set k' v' d) \<Longrightarrow> (k, v) = (k', v') \<or> (k, v) \<in> set d"
  by (induction d) (auto split: if_splits)

lemma mk_args_dict_fold:
  "(k, v) \<in> set (fold (\<lambda>(k, v) d. dict_set (tok_value k) (strip (concat (map tok_value v))) d) kvs d0)
   \<Longrightarrow> (k, v) \<in> set d0 \<or> (\<exists>a \<in> snd ` set kvs. v = strip (concat (map tok_value a)))"
proof (induction kvs arbitrary: d0)
  case Nil
  then show ?case by simp
next
  case (Cons kv kvs)
  obtain p a where kv: "kv = (p, a)" by (cases kv)
  from Cons.prems kv
  have "(k, v) \<in> set (dict_set (tok_value p) (strip (concat (map tok_value a))) d0)
        \<or> (\<exists>a \<in> snd ` set kvs. v = strip (concat (map tok_value a)))"
    using Cons.IH [of "dict_set (tok_value p) (strip (concat (map tok_value a))) d0"] by simp
  then show ?case using kv by (auto dest: dict_set_member)
qed

lemma mk_args_dict_len:
  assumes "(k, v) \<in> set (mk_args_dict params (parse_args n va lst))"
  shows "length v \<le> length lst"
proof -
  from assms obtain a where a: "a \<in> snd ` set (zip params (parse_args n va lst))"
    and v: "v = strip (concat (map tok_value a))"
    unfolding mk_args_dict_def by (auto dest!: mk_args_dict_fold)
  from a have "a \<in> set (parse_args n va lst)" by (auto dest: set_zip_rightD)
  then have "length (concat (map tok_value a)) \<le> weight (concat (parse_args n va lst))"
    by (rule weight_member)
  also have "\<dots> \<le> length lst" by (rule parse_args_weight)
  finally show ?thesis using v strip_le [of "concat (map tok_value a)"] by simp
qed

subsection \<open>Expansion\<close>

text \<open>The decimal digits of a number, as an f-string writes it.\<close>

function digits :: "nat \<Rightarrow> string" where
  "digits n =
     (if n < 10 then [''0123456789'' ! n]
      else digits (n div 10) @ [''0123456789'' ! (n mod 10)])"
  by pat_completeness auto
termination
  by (relation "measure id") auto

declare digits.simps [simp del]

definition arity_error :: "string \<Rightarrow> nat \<Rightarrow> nat \<Rightarrow> string" where
  "arity_error name got expected =
     ''error: macro '' @ name @ '': got only '' @ digits got
       @ '' arguments, expected '' @ digits expected"

text \<open>
  Largest length of a value of a dictionary, and the number of macro names that are not being
  expanded: the measures under which the expansion ends.
\<close>

fun max_len :: "(string \<times> string) list \<Rightarrow> nat" where
  "max_len [] = 0"
| "max_len (kv # kvs) = max (length (snd kv)) (max_len kvs)"

definition not_in_use :: "(string \<times> MacroParts) list \<Rightarrow> string set \<Rightarrow> nat" where
  "not_in_use ms U = card (fst ` set ms - U)"

lemma not_in_use_insert:
  "map_of ms name = Some macro \<Longrightarrow> name \<notin> U \<Longrightarrow> not_in_use ms (insert name U) < not_in_use ms U"
proof -
  assume m: "map_of ms name = Some macro" and n: "name \<notin> U"
  from m have "name \<in> fst ` set ms" by (metis map_of_eq_None_iff option.distinct(1))
  with n have "fst ` set ms - insert name U \<subset> fst ` set ms - U" by auto
  then show ?thesis unfolding not_in_use_def by (intro psubset_card_mono) auto
qed

lemma max_len_le: "(\<And>k v. (k, v) \<in> set kvs \<Longrightarrow> length v \<le> n) \<Longrightarrow> max_len kvs \<le> n"
proof (induction kvs)
  case Nil
  then show ?case by simp
next
  case (Cons kv kvs)
  obtain k v where kv: "kv = (k, v)" by (cases kv)
  from Cons.prems [of k v] kv have "length v \<le> n" by simp
  moreover have "max_len kvs \<le> n"
  proof (rule Cons.IH)
    fix k' v' assume "(k', v') \<in> set kvs"
    then show "length v' \<le> n" using Cons.prems [of k' v'] by simp
  qed
  ultimately show ?case using kv by simp
qed

text \<open>
  \<^verbatim>\<open>_expand_fragment\<close>, \<^verbatim>\<open>_expand_obj_like\<close> and \<^verbatim>\<open>_expand_fn_like\<close>. The state that the methods share
  is passed along: \<open>ms\<close> is \<^verbatim>\<open>self.macros\<close>, \<open>in_use\<close> is \<^verbatim>\<open>self._in_use\<close> (a call adds its name for
  the time of its own expansion and removes it again, so a callee sees the set of its caller
  plus that name) and \<open>errs\<close> is \<^verbatim>\<open>self.errors\<close>, which is returned with the text. The stack
  \<^verbatim>\<open>_in_use_stack\<close> and the offsets are written and never read.

  \<open>sub_loop\<close> is \<^verbatim>\<open>self._names_reg.sub(...)\<close>: \<open>prev\<close> is the character before the rest \<open>s\<close> of
  the text; a match is replaced by what the call for it returns (the matched text itself when
  there is no group \<^verbatim>\<open>name\<close>), and the scan goes on behind the match. \<open>whole\<close> is \<^verbatim>\<open>match[0]\<close> and
  \<open>lst\<close> is \<^verbatim>\<open>match["list"]\<close>. \<open>expand_args\<close> is the comprehension that builds
  \<^verbatim>\<open>args_dict_expanded\<close>. A name that the pattern matched is a key of \<^verbatim>\<open>self.macros\<close>, and a
  macro matched with arguments has a parameter list; the branches for the other cases, where
  Python would raise, return the matched text.
\<close>

function expand_fragment ::
    "(string \<times> MacroParts) list \<Rightarrow> string set \<Rightarrow> string list \<Rightarrow> string \<Rightarrow> string \<times> string list"
  and sub_loop ::
    "(string \<times> MacroParts) list \<Rightarrow> string set \<Rightarrow> string list \<Rightarrow> char option \<Rightarrow> string
       \<Rightarrow> string \<times> string list"
  and expand_obj_like ::
    "(string \<times> MacroParts) list \<Rightarrow> string set \<Rightarrow> string list \<Rightarrow> string \<Rightarrow> string
       \<Rightarrow> string \<times> string list"
  and expand_fn_like ::
    "(string \<times> MacroParts) list \<Rightarrow> string set \<Rightarrow> string list \<Rightarrow> string \<Rightarrow> string \<Rightarrow> string
       \<Rightarrow> string \<times> string list"
  and expand_args ::
    "(string \<times> MacroParts) list \<Rightarrow> string set \<Rightarrow> string list \<Rightarrow> (string \<times> string) list
       \<Rightarrow> (string \<times> string) list \<times> string list"
where
  "expand_fragment ms in_use errs txt = sub_loop ms in_use errs None txt"
| "sub_loop ms in_use errs prev [] = ([], errs)"
| "sub_loop ms in_use errs prev (c # r) =
     (case names_reg_match (obj_like_names ms) (fn_like_names ms) prev (c # r) of
        None \<Rightarrow>
          (case sub_loop ms in_use errs (Some c) r of (out, e) \<Rightarrow> (c # out, e))
      | Some m \<Rightarrow>
          (case (case m of
                   Verbatim n \<Rightarrow> (take n (c # r), errs)
                 | Obj name \<Rightarrow> expand_obj_like ms in_use errs name (take (match_len m) (c # r))
                 | Fn name k l \<Rightarrow>
                     expand_fn_like ms in_use errs name (take (match_len m) (c # r))
                       (take l (drop (length name + k + 1) (c # r))))
           of (repl, e1) \<Rightarrow>
             (case sub_loop ms in_use e1 (Some ((c # r) ! (match_len m - 1)))
                     (drop (match_len m) (c # r))
              of (out, e2) \<Rightarrow> (repl @ out, e2))))"
| "expand_obj_like ms in_use errs name whole =
     (if name \<in> in_use then (whole, errs)
      else (case map_of ms name of
              None \<Rightarrow> (whole, errs)
            | Some macro \<Rightarrow>
                (case mp_body macro of
                   None \<Rightarrow> ([], errs)
                 | Some body \<Rightarrow> expand_fragment ms (insert name in_use) errs (tok_value body))))"
| "expand_fn_like ms in_use errs name whole lst =
     (if name \<in> in_use then (whole, errs)
      else (case map_of ms name of
              None \<Rightarrow> (whole, errs)
            | Some macro \<Rightarrow>
                (case mp_body macro of
                   None \<Rightarrow> ([], errs)
                 | Some body \<Rightarrow>
                     (case mp_args macro of
                        None \<Rightarrow> (whole, errs)
                      | Some params \<Rightarrow>
                          (if length (parse_args (length params) (is_va_args macro) lst) < length params
                           then (whole,
                                 errs @ [arity_error name
                                           (length (parse_args (length params) (is_va_args macro) lst))
                                           (length params)])
                           else if params = []
                           then expand_fragment ms (insert name in_use) errs (tok_value body)
                           else (case expand_args ms in_use errs
                                        (mk_args_dict params
                                           (parse_args (length params) (is_va_args macro) lst))
                                 of (args_dict_expanded, e1) \<Rightarrow>
                                   expand_fragment ms (insert name in_use) e1
                                     (macro_subst
                                        (mk_args_dict params
                                           (parse_args (length params) (is_va_args macro) lst))
                                        args_dict_expanded (tok_value body))))))))"
| "expand_args ms in_use errs [] = ([], errs)"
| "expand_args ms in_use errs ((k, v) # kvs) =
     (case expand_fragment ms in_use errs v of
        (x, e1) \<Rightarrow>
          (case expand_args ms in_use e1 kvs of (xs, e2) \<Rightarrow> ((k, x) # xs, e2)))"
  by pat_completeness auto


text \<open>
  Every call of the expansion functions returns: the calls that a call makes are smaller
  under the lexicographic order of the number of macro names that are not in use, the length
  of the text at hand, and the rank of the function called.
\<close>

lemma expansion_terminates:
  "All expand_fragment_sub_loop_expand_obj_like_expand_fn_like_expand_args_dom"
  apply (relation "measures
     [\<lambda>x. case x of
             Inl (Inl (ms, U, _)) \<Rightarrow> not_in_use ms U
           | Inl (Inr (ms, U, _)) \<Rightarrow> not_in_use ms U
           | Inr (Inl (ms, U, _)) \<Rightarrow> not_in_use ms U
           | Inr (Inr (Inl (ms, U, _))) \<Rightarrow> not_in_use ms U
           | Inr (Inr (Inr (ms, U, _))) \<Rightarrow> not_in_use ms U,
      \<lambda>x. case x of
             Inl (Inl (ms, U, errs, txt)) \<Rightarrow> length txt
           | Inl (Inr (ms, U, errs, prev, s)) \<Rightarrow> length s
           | Inr (Inl _) \<Rightarrow> 0
           | Inr (Inr (Inl (ms, U, errs, name, whole, lst))) \<Rightarrow> length lst + 2
           | Inr (Inr (Inr (ms, U, errs, kvs))) \<Rightarrow> max_len kvs + 1,
      \<lambda>x. case x of
             Inl (Inl _) \<Rightarrow> 1
           | Inr (Inr (Inr (ms, U, errs, kvs))) \<Rightarrow> length kvs + 2
           | _ \<Rightarrow> 0]")
              apply simp_all
  subgoal for ms prev c r m name k l
    by (drule names_reg_match_Fn) (cases name, simp, simp, arith)
  subgoal for ms in_use errs prev c r m
    by (drule names_reg_match_len) arith
  subgoal by (rule not_in_use_insert)
  subgoal by (rule disjI1) (rule not_in_use_insert)
  subgoal for ms in_use name lst macro body params
    using max_len_le [of "mk_args_dict params (parse_args (length params) (is_va_args macro) lst)"
        "length lst"] mk_args_dict_len
    by (simp add: less_Suc_eq_le)
  subgoal by (rule disjI1) (rule not_in_use_insert)
  subgoal by arith
  subgoal by arith
  done

termination expand_fragment
  by (rule expansion_terminates)


declare expand_fragment.simps [simp del] sub_loop.simps [simp del] expand_obj_like.simps [simp del]
  expand_fn_like.simps [simp del] expand_args.simps [simp del]

text \<open>
  \<^verbatim>\<open>Macros.expand\<close>: the text and the new state of the registry. Without macros the text is
  returned at once, and \<^verbatim>\<open>errors\<close> is left as it was.
\<close>

definition expand :: "Macros \<Rightarrow> string \<Rightarrow> string \<times> Macros" where
  "expand self txt =
     (if macros self = [] then (txt, self)
      else (case expand_fragment (macros self) {} [] txt of
              (res, errs) \<Rightarrow> (res, self\<lparr>errors := errs\<rparr>)))"

subsection \<open>Sample macros\<close>

text \<open>
  The macro of \<^verbatim>\<open>#define name body\<close> (\<open>args = None\<close>) or \<^verbatim>\<open>#define name(args) body\<close>, and a macro
  constructed without a body, \<^verbatim>\<open>MacroParts(name, args)\<close>.
\<close>

definition macro :: "string \<Rightarrow> string list option \<Rightarrow> string \<Rightarrow> MacroParts" where
  "macro name args body =
     MacroParts_init (mk_token name) (map_option (map mk_token) args) (Some (mk_token body))
       None False"

definition macro_no_body :: "string \<Rightarrow> string list option \<Rightarrow> MacroParts" where
  "macro_no_body name args =
     MacroParts_init (mk_token name) (map_option (map mk_token) args) None None False"

section \<open>Properties of the tokenizer\<close>

text \<open>
  What the claims say of the ranges of a token list. \<open>in_order lo ts hi\<close>: the ranges are not
  empty, follow one another without overlap and lie between \<open>lo\<close> and \<open>hi\<close>. \<open>partitions lo ts hi\<close>:
  the first range starts at \<open>lo\<close>, each range starts where the one before ends, and the last
  ends at \<open>hi\<close>. \<open>slices_of txt ts\<close>: the value of each token is the text at its range.
\<close>

fun in_order :: "nat \<Rightarrow> Token list \<Rightarrow> nat \<Rightarrow> bool" where
  "in_order lo [] hi = (lo \<le> hi)"
| "in_order lo (t # ts) hi =
     (lo \<le> fst (tok_range t) \<and> fst (tok_range t) < snd (tok_range t)
      \<and> in_order (snd (tok_range t)) ts hi)"

fun partitions :: "nat \<Rightarrow> Token list \<Rightarrow> nat \<Rightarrow> bool" where
  "partitions lo [] hi = (lo = hi)"
| "partitions lo (t # ts) hi =
     (fst (tok_range t) = lo \<and> partitions (snd (tok_range t)) ts hi)"


text \<open>The lemmas by which concrete tokens are computed.\<close>

lemmas tok_defs = token_alts_def line_comment_def block_comment_def quoted_def bracket_group_def
  closing_def newline_def hspace_def escaped_def operator_def operators_def word_def is_word_def
  is_hspace_def nth_is_def opens_def

lemma in_order_mono: "in_order lo ts hi \<Longrightarrow> lo' \<le> lo \<Longrightarrow> in_order lo' ts hi"
  by (cases ts) auto

lemma finditer_in_order: "in_order pos (finditer pp i pos s) (pos + length s)"
proof (induction pp i pos s rule: finditer.induct)
  case (1 pp i pos)
  then show ?case by (simp add: finditer.simps)
next
  case (2 pp i pos c r)
  show ?case
  proof (cases "token_len pp (c # r)")
    case None
    from 2(1) [OF None] have "in_order (pos + 1) (finditer pp i (pos + 1) r) (pos + 1 + length r)" .
    then have "in_order pos (finditer pp i (pos + 1) r) (pos + 1 + length r)"
      by (rule in_order_mono) simp
    with None show ?thesis by (simp add: finditer.simps)
  next
    case (Some n)
    then have n: "0 < n \<and> n \<le> length (c # r)" by (rule token_len_bounds)
    then have "pos + n + length (drop n (c # r)) = pos + length (c # r)" by simp
    with 2(2) [OF Some] have "in_order (pos + n) (finditer pp (i + 1) (pos + n) (drop n (c # r))) (pos + length (c # r))"
      by (simp del: drop_Suc_Cons)
    with Some n show ?thesis by (simp add: finditer.simps del: drop_Suc_Cons)
  qed
qed



lemma finditer_length: "length (concat (map tok_value (finditer pp i pos s))) \<le> length s"
proof (induction pp i pos s rule: finditer.induct)
  case (1 pp i pos)
  then show ?case by (simp add: finditer.simps)
next
  case (2 pp i pos c r)
  show ?case
  proof (cases "token_len pp (c # r)")
    case None
    with 2(1) [OF None] show ?thesis by (simp add: finditer.simps)
  next
    case (Some n)
    then have n: "0 < n \<and> n \<le> length (c # r)" by (rule token_len_bounds)
    from 2(2) [OF Some]
    have "length (concat (map tok_value (finditer pp (i + 1) (pos + n) (drop n (c # r)))))
            \<le> length (c # r) - n"
      by simp
    with n have "n + length (concat (map tok_value (finditer pp (i + 1) (pos + n) (drop n (c # r)))))
            \<le> length (c # r)"
      by arith
    moreover from n have "length (take n (c # r)) = n" by simp
    ultimately show ?thesis using Some
      by (simp add: finditer.simps del: take_Suc_Cons drop_Suc_Cons length_take)
  qed
qed

lemma not_partitions_later: "in_order lo ts hi \<Longrightarrow> lo' < lo \<Longrightarrow> lo \<le> hi \<Longrightarrow> \<not> partitions lo' ts hi"
  by (cases ts) auto

lemma in_order_le: "in_order lo ts hi \<Longrightarrow> lo \<le> hi"
  by (induction ts arbitrary: lo) fastforce+

lemma finditer_partitions:
  "partitions pos (finditer pp i pos s) (pos + length s)
   \<longleftrightarrow> concat (map tok_value (finditer pp i pos s)) = s"
proof (induction pp i pos s rule: finditer.induct)
  case (1 pp i pos)
  then show ?case by (simp add: finditer.simps)
next
  case (2 pp i pos c r)
  show ?case
  proof (cases "token_len pp (c # r)")
    case None
    have "in_order (pos + 1) (finditer pp i (pos + 1) r) (pos + 1 + length r)"
      by (rule finditer_in_order)
    then have "\<not> partitions pos (finditer pp i (pos + 1) r) (pos + 1 + length r)"
      by (rule not_partitions_later) simp_all
    moreover have "concat (map tok_value (finditer pp i (pos + 1) r)) \<noteq> c # r"
      using finditer_length [of pp i "pos + 1" r] by auto
    ultimately show ?thesis using None by (simp add: finditer.simps)
  next
    case (Some n)
    then have n: "0 < n \<and> n \<le> length (c # r)" by (rule token_len_bounds)
    then have e: "pos + n + length (drop n (c # r)) = pos + length (c # r)" by simp
    have "take n (c # r) @ x = c # r \<longleftrightarrow> x = drop n (c # r)" for x
      by (metis append_take_drop_id same_append_eq)
    with 2(2) [OF Some] e Some show ?thesis
      by (simp add: finditer.simps del: take_Suc_Cons drop_Suc_Cons)
  qed
qed







section \<open>Properties of macro expansion\<close>

subsection \<open>The empty registry\<close>

text \<open>
  C10. With no macro in the registry, \<^verbatim>\<open>expand\<close> returns the text it is given, and the registry
  is as before.
\<close>

theorem C10_expand_empty_registry:
  "expand (self\<lparr>macros := []\<rparr>) txt = (txt, self\<lparr>macros := []\<rparr>)"
  by (simp add: expand_def)

subsection \<open>Self-reference\<close>







subsection \<open>Computing expansions\<close>

text \<open>
  Concrete expansions are computed by rewriting with the definitions, from the inside:
  first the tokens at the positions of a text, then the matches of the patterns, then the
  expansion.
\<close>

lemma macro_fields:
  "mp_body (macro name args body) = Some (mk_token body)"
  "mp_args (macro name args body) = map_option (map mk_token) args"
  "is_va_args (macro name args body) = False"
  "mp_body (macro_no_body name args) = None"
  "mp_args (macro_no_body name args) = map_option (map mk_token) args"
  "is_va_args (macro_no_body name args) = False"
  "tok_value (mk_token s) = s"
  by (simp_all add: macro_def macro_no_body_def MacroParts_init_def mk_token_def)

lemmas names_defs = names_reg_match_def fn_candidates_def name_candidates_def
  word_boundary_def next_char_def line_comment_def block_comment_def quoted_def nth_is_def
  is_word_def

lemmas registry_defs = obj_like_names_def fn_like_names_def macro_fields

lemmas star_defs = TOKEN_star.simps TOKEN_iter.simps

lemmas scan_defs = xFromText_def finditer.simps token_len_def

lemmas args_defs = parse_args_def append_last_def

lemmas dict_defs = mk_args_dict_def strip_def py_isspace_def is_space_def

lemmas subst_defs = macro_subst_def subst_loop.simps subst_match_at_def subst_repl_def
  paste_chain.simps name_candidates_def word_boundary_def next_char_def is_word_def is_space_def

lemmas expand_defs = expand_fragment.simps sub_loop.simps expand_obj_like.simps
  expand_fn_like.simps expand_args.simps

lemma token_facts:
  "TOKEN pp [] = []"
  "TOKEN pp ''x'' = [1]"
  "TOKEN pp ''1'' = [1]"
  "TOKEN pp ''2'' = [1]"
  "TOKEN pp ''b'' = [1]"
  "TOKEN pp '')'' = []"
  "TOKEN pp ''1)'' = [1]"
  "TOKEN pp ''2)'' = [1]"
  "TOKEN pp ''b)'' = [1]"
  "TOKEN pp '') G'' = []"
  "TOKEN pp ''1) G'' = [1]"
  "TOKEN pp ''1,2)'' = [1]"
  "TOKEN pp '',2)'' = [1]"
  "TOKEN pp ''1,2'' = [1]"
  "TOKEN pp '',2'' = [1]"
  "TOKEN pp ''FOO)'' = [3]"
  "TOKEN pp ''FOO'' = [3]"
  "TOKEN pp ''a+b)'' = [1]"
  "TOKEN pp ''+b)'' = [1]"
  "TOKEN pp ''a+b'' = [1]"
  "TOKEN pp ''+b'' = [1]"
  "TOKEN pp ''FOO,bar)'' = [3]"
  "TOKEN pp '',bar)'' = [1]"
  "TOKEN pp ''bar)'' = [3]"
  "TOKEN pp ''FOO,bar'' = [3]"
  "TOKEN pp '',bar'' = [1]"
  "TOKEN pp ''bar'' = [3]"
  by (simp_all add: TOKEN.simps tok_defs)

lemma TOKEN_open_x: "TOKEN pp ''(x'' = []"
  by (simp add: TOKEN.simps star_defs token_facts tok_defs)

lemma call_args_facts:
  "call_args ''(1)'' = [(0, 1)]"
  "call_args ''(1) G'' = [(0, 1)]"
  "call_args ''(1,2)'' = [(0, 3)]"
  "call_args ''(FOO)'' = [(0, 3)]"
  "call_args ''(a+b)'' = [(0, 3)]"
  "call_args ''(FOO,bar)'' = [(0, 7)]"
  by (simp_all add: call_args_def is_space_def nth_is_def star_defs token_facts)

lemma parse_args_facts:
  "parse_args n va ''1'' = [[\<lparr>tok_idx = 0, tok_range = (0, 1), tok_value = ''1''\<rparr>]]"
  "parse_args (Suc (Suc 0)) va ''1,2'' =
     [[\<lparr>tok_idx = 0, tok_range = (0, 1), tok_value = ''1''\<rparr>],
      [\<lparr>tok_idx = 2, tok_range = (2, 3), tok_value = ''2''\<rparr>]]"
  "parse_args n va ''FOO'' = [[\<lparr>tok_idx = 0, tok_range = (0, 3), tok_value = ''FOO''\<rparr>]]"
  "parse_args n va ''a+b'' =
     [[\<lparr>tok_idx = 0, tok_range = (0, 1), tok_value = ''a''\<rparr>,
       \<lparr>tok_idx = 1, tok_range = (1, 2), tok_value = ''+''\<rparr>,
       \<lparr>tok_idx = 2, tok_range = (2, 3), tok_value = ''b''\<rparr>]]"
  "parse_args (Suc (Suc 0)) va ''FOO,bar'' =
     [[\<lparr>tok_idx = 0, tok_range = (0, 3), tok_value = ''FOO''\<rparr>],
      [\<lparr>tok_idx = 2, tok_range = (4, 7), tok_value = ''bar''\<rparr>]]"
  by (simp_all add: scan_defs args_defs token_facts)

lemmas run_defs = expand_def expand_defs registry_defs names_defs call_args_facts
  parse_args_facts dict_defs

subsection \<open>Stringize, paste and parameters\<close>











subsection \<open>Too few arguments\<close>

text \<open>
  The number of comma tokens of an argument list (a comma inside brackets or inside a string
  lies inside a bigger token), and the number of arguments that the loop of
  \<^verbatim>\<open>_expand_fn_like\<close> collects: one more than the commas, but not more than the number \<open>n\<close> of
  parameters, and not less than one.
\<close>

definition commas :: "string \<Rightarrow> nat" where
  "commas lst = length (filter (\<lambda>t. tok_value t = '','') (xFromText lst))"

lemma append_last_length: "acc \<noteq> [] \<Longrightarrow> length (append_last acc t) = length acc"
  by (cases acc rule: rev_cases) (simp_all add: append_last_def)

lemma parse_args_loop_length:
  "acc \<noteq> [] \<Longrightarrow>
   length (parse_args_loop n va ts acc)
     = max (length acc) (min n (length acc + length (filter (\<lambda>t. tok_value t = '','') ts)))"
proof (induction ts arbitrary: acc)
  case Nil
  then show ?case by simp
next
  case (Cons t ts)
  have a: "length (parse_args_loop n va ts (append_last acc t))
             = max (length acc) (min n (length acc + length (filter (\<lambda>t. tok_value t = '','') ts)))"
    using Cons.IH [of "append_last acc t"] Cons.prems
    by (simp add: append_last_length append_last_nonempty)
  have b: "length (parse_args_loop n va ts (acc @ [[]]))
             = max (Suc (length acc))
                 (min n (Suc (length acc) + length (filter (\<lambda>t. tok_value t = '','') ts)))"
    using Cons.IH [of "acc @ [[]]"] by simp
  show ?case using a b by (cases va) (auto simp: max_def min_def)
qed

lemma parse_args_length: "length (parse_args n va lst) = max 1 (min n (Suc (commas lst)))"
  using parse_args_loop_length [of "[[]]" n va "xFromText lst"]
  by (simp add: parse_args_def commas_def)

text \<open>
  C4, as the code has it. The scan meets a call of a function-like macro that is not being
  expanded and has a body, and the argument list has fewer arguments (one more than its
  commas) than the macro has parameters: the text of the call goes to the output as it is,
  the arity error is appended to the errors, and the scan goes on behind the call.
\<close>

theorem C4_too_few_arguments:
  assumes "names_reg_match (obj_like_names ms) (fn_like_names ms) prev (c # r)
             = Some (Fn name k l)"
    and "name \<notin> in_use"
    and "map_of ms name = Some m"
    and "mp_body m = Some body"
    and "mp_args m = Some params"
    and "Suc (commas (take l (drop (length name + k + 1) (c # r)))) < length params"
  shows "sub_loop ms in_use errs prev (c # r) =
           (take (length name + k + l + 2) (c # r)
              @ fst (sub_loop ms in_use
                       (errs @ [arity_error name
                                  (Suc (commas (take l (drop (length name + k + 1) (c # r)))))
                                  (length params)])
                       (Some ((c # r) ! (length name + k + l + 1)))
                       (drop (length name + k + l + 2) (c # r))),
            snd (sub_loop ms in_use
                   (errs @ [arity_error name
                              (Suc (commas (take l (drop (length name + k + 1) (c # r)))))
                              (length params)])
                   (Some ((c # r) ! (length name + k + l + 1)))
                   (drop (length name + k + l + 2) (c # r))))"
proof -
  from assms(6)
  have n: "max 1 (min (length params)
             (Suc (commas (take l (drop (length name + k + 1) (c # r))))))
           = Suc (commas (take l (drop (length name + k + 1) (c # r))))"
    by simp
  have "expand_fn_like ms in_use errs name (take (length name + k + l + 2) (c # r))
          (take l (drop (length name + k + 1) (c # r)))
        = (take (length name + k + l + 2) (c # r),
           errs @ [arity_error name
                     (Suc (commas (take l (drop (length name + k + 1) (c # r)))))
                     (length params)])"
    using assms(2-6)
    by (subst expand_fn_like.simps) (simp add: parse_args_length n del: take_Suc_Cons drop_Suc_Cons)
  then show ?thesis
    using assms(1)
    by (subst sub_loop.simps) (simp add: split_beta del: take_Suc_Cons drop_Suc_Cons)
qed

text \<open>
  \<^verbatim>\<open>#define F(a,b) a+b\<close> and \<^verbatim>\<open>#define G 7\<close>: in \<^verbatim>\<open>F(1) G\<close> the call stays, the error is recorded and
  \<^verbatim>\<open>G\<close> is expanded.
\<close>

theorem C4_too_few_arguments_witness:
  "expand \<lparr>macros = [(''F'', macro ''F'' (Some [''a'', ''b'']) ''a+b''),
                     (''G'', macro ''G'' None ''7'')],
           errors = []\<rparr> ''F(1) G''
     = (''F(1) 7'',
        \<lparr>macros = [(''F'', macro ''F'' (Some [''a'', ''b'']) ''a+b''),
                   (''G'', macro ''G'' None ''7'')],
         errors = [''error: macro F: got only 1 arguments, expected 2'']\<rparr>)"
proof -
  let ?ms = "[(''F'', macro ''F'' (Some [''a'', ''b'']) ''a+b''), (''G'', macro ''G'' None ''7'')]"
  have h1: "names_reg_match (obj_like_names ?ms) (fn_like_names ?ms) None ''F(1) G''
              = Some (Fn ''F'' 0 1)"
    by (simp add: registry_defs names_defs call_args_facts)
  have h6: "Suc (commas (take 1 (drop (length ''F'' + 0 + 1) ''F(1) G'')))
              < length [mk_token ''a'', mk_token ''b'']"
    by (simp add: commas_def scan_defs token_facts)
  have step: "sub_loop ?ms {} [] None ''F(1) G''
      = (''F(1)'' @ fst (sub_loop ?ms {} [''error: macro F: got only 1 arguments, expected 2'']
                          (Some (CHR '')'')) '' G''),
         snd (sub_loop ?ms {} [''error: macro F: got only 1 arguments, expected 2'']
                (Some (CHR '')'')) '' G''))"
    using C4_too_few_arguments [where ms = ?ms and prev = None and c = "CHR ''F''"
        and r = "''(1) G''" and name = "''F''" and k = 0 and l = 1 and in_use = "{}"
        and m = "macro ''F'' (Some [''a'', ''b'']) ''a+b''" and body = "mk_token ''a+b''"
        and params = "[mk_token ''a'', mk_token ''b'']" and errs = "[]", OF h1 _ _ _ _ h6]
    by (simp add: macro_fields commas_def scan_defs token_facts arity_error_def digits.simps)
  have rest: "sub_loop ?ms {} [''error: macro F: got only 1 arguments, expected 2'']
                (Some (CHR '')'')) '' G''
              = ('' 7'', [''error: macro F: got only 1 arguments, expected 2''])"
    by (simp add: expand_defs registry_defs names_defs)
  show ?thesis by (simp add: expand_def expand_fragment.simps step rest)
qed

text \<open>
  The two tests that come before the count of the arguments. A macro that was constructed
  without a body, \<^verbatim>\<open>F(a,b)\<close>: the call \<^verbatim>\<open>F(1)\<close> is replaced by the empty text and no error is
  recorded. \<^verbatim>\<open>#define F(a,b) F(a)\<close>: the expansion of \<^verbatim>\<open>F(1,2)\<close> meets the call \<^verbatim>\<open>F(1)\<close> while \<^verbatim>\<open>F\<close> is in
  use; the call stays as it is and no error is recorded.
\<close>

lemma subst_F_a:
  "macro_subst [(''a'', v), (''b'', w)] [(''a'', e), (''b'', f)] ''F(a)'' = ''F('' @ e @ '')''"
  by (simp add: subst_defs)

theorem C4_no_error_without_body_or_in_use:
  "expand \<lparr>macros = [(''F'', macro_no_body ''F'' (Some [''a'', ''b'']))], errors = []\<rparr> ''F(1)''
     = ([], \<lparr>macros = [(''F'', macro_no_body ''F'' (Some [''a'', ''b'']))], errors = []\<rparr>)
   \<and> expand \<lparr>macros = [(''F'', macro ''F'' (Some [''a'', ''b'']) ''F(a)'')], errors = []\<rparr>
       ''F(1,2)''
     = (''F(1)'', \<lparr>macros = [(''F'', macro ''F'' (Some [''a'', ''b'']) ''F(a)'')], errors = []\<rparr>)"
  by (simp add: run_defs subst_F_a)

subsection \<open>The flag \<open>is_wellformed\<close>\<close>

text \<open>\<open>set_flags f ms\<close>: the registry \<open>ms\<close> with the flags of its macros set as \<open>f\<close> says.\<close>

definition set_flags ::
  "(string \<Rightarrow> MacroParts \<Rightarrow> bool) \<Rightarrow> (string \<times> MacroParts) list \<Rightarrow> (string \<times> MacroParts) list" where
  "set_flags f ms =
     map (\<lambda>kv. (fst kv, (snd kv)\<lparr>mp_is_wellformed := f (fst kv) (snd kv)\<rparr>)) ms"

lemma set_flags_names:
  "obj_like_names (set_flags f ms) = obj_like_names ms"
  "fn_like_names (set_flags f ms) = fn_like_names ms"
  by (induction ms) (simp_all add: set_flags_def obj_like_names_def fn_like_names_def)

lemma set_flags_map_of:
  "map_of (set_flags f ms) name
     = map_option (\<lambda>m. m\<lparr>mp_is_wellformed := f name m\<rparr>) (map_of ms name)"
  by (induction ms) (auto simp: set_flags_def)

lemma set_flags_Nil: "(set_flags f ms = []) = (ms = [])"
  by (simp add: set_flags_def)

lemma flags_irrelevant:
  "expand_fragment (set_flags f ms) U errs t = expand_fragment ms U errs t"
  "sub_loop (set_flags f ms) U errs prev s = sub_loop ms U errs prev s"
  "expand_obj_like (set_flags f ms) U errs name whole = expand_obj_like ms U errs name whole"
  "expand_fn_like (set_flags f ms) U errs name whole lst = expand_fn_like ms U errs name whole lst"
  "expand_args (set_flags f ms) U errs kvs = expand_args ms U errs kvs"
proof (induction ms U errs t and ms U errs prev s and ms U errs name whole
         and ms U errs name whole lst and ms U errs kvs
       rule: expand_fragment_sub_loop_expand_obj_like_expand_fn_like_expand_args.induct)
  case (1 ms in_use errs t)
  then show ?case by (simp add: expand_fragment.simps)
next
  case (2 ms in_use errs prev)
  then show ?case by (simp add: sub_loop.simps)
next
  case (3 ms in_use errs prev c r)
  show ?case
  proof (cases "names_reg_match (obj_like_names ms) (fn_like_names ms) prev (c # r)")
    case None
    with 3(1) show ?thesis by (simp add: sub_loop.simps set_flags_names)
  next
    case (Some m)
    let ?call = "\<lambda>ms. (case m of
                   Verbatim n \<Rightarrow> (take n (c # r), errs)
                 | Obj name \<Rightarrow> expand_obj_like ms in_use errs name (take (match_len m) (c # r))
                 | Fn name k l \<Rightarrow>
                     expand_fn_like ms in_use errs name (take (match_len m) (c # r))
                       (take l (drop (length name + k + 1) (c # r))))"
    obtain repl e1 where x: "?call ms = (repl, e1)"
      by (cases "?call ms") blast
    have y: "?call (set_flags f ms) = (repl, e1)"
      using x 3(2) [OF Some] 3(3) [OF Some] by (cases m) simp_all
    from 3(4) [OF Some x [symmetric]]
    have z: "sub_loop (set_flags f ms) in_use e1 (Some ((c # r) ! (match_len m - 1)))
               (drop (match_len m) (c # r))
             = sub_loop ms in_use e1 (Some ((c # r) ! (match_len m - 1)))
               (drop (match_len m) (c # r))" .
    show ?thesis
      by (simp only: sub_loop.simps set_flags_names Some option.case x y z prod.case)
  qed
next
  case (4 ms in_use errs name whole)
  then show ?case
    by (simp add: expand_obj_like.simps set_flags_map_of split: option.split)
next
  case (5 ms in_use errs name whole lst)
  then show ?case
    by (simp add: expand_fn_like.simps set_flags_map_of split: option.split prod.split)
next
  case (6 ms in_use errs)
  then show ?case by (simp add: expand_args.simps)
next
  case (7 ms in_use errs k v kvs)
  then show ?case by (simp add: expand_args.simps split: prod.split)
qed

lemma wellformed_loop_partitions: "(wellformed_loop lo ts = Some hi) = partitions lo ts hi"
  by (induction ts arbitrary: lo) auto

lemma is_wellformed_iff:
  "is_wellformed s = (concat (map tok_value (finditer True 0 0 s)) = s)"
proof -
  have "is_wellformed s = partitions 0 (finditer True 0 0 s) (length s)"
    using wellformed_loop_partitions [of 0 "finditer True 0 0 s" "length s"]
    by (auto simp: is_wellformed_def split: option.splits)
  then show ?thesis using finditer_partitions [of 0 True 0 s] by simp
qed

text \<open>
  C5, as the code has it. The flag is set when a macro is constructed: it is true for a macro
  without a body, and else says that the tokens of the preprocessor flavour cover the body
  without residue. The expansion does not read it: whatever the flags of the macros of a
  registry are set to, \<^verbatim>\<open>expand\<close> returns the same text and records the same errors.
\<close>

theorem C5_flag_not_read:
  "expand (self\<lparr>macros := set_flags f (macros self)\<rparr>) t
     = (fst (expand self t), (snd (expand self t))\<lparr>macros := set_flags f (macros self)\<rparr>)
   \<and> mp_is_wellformed (MacroParts_init name args None pre va) = True
   \<and> mp_is_wellformed (MacroParts_init name args (Some body) pre va)
       = (concat (map tok_value (finditer True 0 0 (tok_value body))) = tok_value body)"
  by (simp add: expand_def flags_irrelevant set_flags_Nil MacroParts_init_def is_wellformed_iff
        split_beta)

text \<open>
  \<^verbatim>\<open>#define F(x) (x\<close>: the body has a bracket that is not closed and the flag is false, and
  \<^verbatim>\<open>F(1)\<close> is expanded with the argument substituted, to \<^verbatim>\<open>(1\<close>.
\<close>

theorem C5_malformed_body_substituted:
  "mp_is_wellformed (macro ''F'' (Some [''x'']) ''(x'') = False
   \<and> expand \<lparr>macros = [(''F'', macro ''F'' (Some [''x'']) ''(x'')], errors = []\<rparr> ''F(1)''
       = (''(1'', \<lparr>macros = [(''F'', macro ''F'' (Some [''x'']) ''(x'')], errors = []\<rparr>)"
proof -
  have "is_wellformed ''(x'' = False"
    by (simp add: is_wellformed_def finditer.simps token_len_def TOKEN_open_x token_facts)
  then have a: "mp_is_wellformed (macro ''F'' (Some [''x'']) ''(x'') = False"
    by (simp add: macro_def MacroParts_init_def mk_token_def)
  have s: "macro_subst [(''x'', ''1'')] [(''x'', ''1'')] ''(x'' = ''(1''"
    by (simp add: subst_defs)
  have "expand \<lparr>macros = [(''F'', macro ''F'' (Some [''x'']) ''(x'')], errors = []\<rparr> ''F(1)''
       = (''(1'', \<lparr>macros = [(''F'', macro ''F'' (Some [''x'']) ''(x'')], errors = []\<rparr>)"
    by (simp add: run_defs s)
  with a show ?thesis by simp
qed

subsection \<open>The normalization of a macro body\<close>

lemma replace_continuations_length: "length (replace_continuations s) = length s"
  by (induction s rule: replace_continuations.induct) simp_all

lemma strip_length: "length (strip s) \<le> length s"
  by (rule strip_le)

lemma length_eq_strip: "(length (strip s) = length s) = (strip s = s)"
proof
  assume l: "length (strip s) = length s"
  have a: "length (strip s) \<le> length (dropWhile py_isspace s)"
    using length_dropWhile_le [of py_isspace "rev (dropWhile py_isspace s)"]
    by (simp add: strip_def)
  have b: "length (dropWhile py_isspace s) \<le> length s" by (rule length_dropWhile_le)
  from l a b have "length (dropWhile py_isspace s) = length s" by simp
  then have d: "dropWhile py_isspace s = s"
    by (metis takeWhile_dropWhile_id append_self_conv2 length_0_conv length_append add_cancel_right_left
          add.commute)
  with l have "length (dropWhile py_isspace (rev s)) = length (rev s)" by (simp add: strip_def)
  then have "dropWhile py_isspace (rev s) = rev s"
    by (metis takeWhile_dropWhile_id append_self_conv2 length_0_conv length_append add_cancel_right_left
          add.commute)
  with d show "strip s = s" by (simp add: strip_def)
next
  assume "strip s = s"
  then show "length (strip s) = length s" by simp
qed

text \<open>
  C9, as the code has it. Writing the continuations as a blank and a line feed keeps the
  length of the body, and so does \<^verbatim>\<open>clean_text_sz\<close> when it keeps the size of every text, as
  its comment says. Between the two the body is stripped: the normalized body is as long as
  the stripped one, never longer than the body, and as long as the body exactly when there is
  no white space to strip at its ends.
\<close>

theorem C9_length_of_normalized_body:
  assumes "\<And>s. length (clean s) = length s"
  shows "length (replace_continuations body) = length body
         \<and> length (normalize_body clean body) = length (strip (replace_continuations body))
         \<and> length (normalize_body clean body) \<le> length body
         \<and> ((length (normalize_body clean body) = length body)
              = (strip (replace_continuations body) = replace_continuations body))"
  using assms strip_length [of "replace_continuations body"]
    length_eq_strip [of "replace_continuations body"]
  by (simp add: normalize_body_def replace_continuations_length)

text \<open>The body \<^verbatim>\<open>a\<close>, backslash, line feed, \<^verbatim>\<open>b\<close>: nothing to strip, four characters before and after.\<close>

theorem C9_length_of_normalized_body_witness:
  "normalize_body clean_plain [CHR ''a'', BSL, NL, CHR ''b''] = [CHR ''a'', CHR '' '', NL, CHR ''b'']
   \<and> length (normalize_body clean_plain [CHR ''a'', BSL, NL, CHR ''b''])
       = length [CHR ''a'', BSL, NL, CHR ''b'']"
  using C9_length_of_normalized_body [of clean_plain "[CHR ''a'', BSL, NL, CHR ''b'']"]
  by (simp add: clean_plain_def normalize_body_def strip_def py_isspace_def is_space_def)

text \<open>
  The length is not kept in general. A body that ends with a blank, as in \<^verbatim>\<open>#define A 1\<close>
  followed by a blank: two characters before, one after. A body that starts on the next line,
  as in \<^verbatim>\<open>#define A\<close>, backslash, line feed, \<^verbatim>\<open>1\<close>: three characters before, one after. In both
  the text that is handed to \<^verbatim>\<open>clean_text_sz\<close> is already \<^verbatim>\<open>1\<close>.
\<close>

theorem C9_strip_shortens_body:
  "strip (replace_continuations ''1 '') = ''1''
   \<and> strip (replace_continuations [BSL, NL, CHR ''1'']) = ''1''
   \<and> normalize_body clean_plain ''1 '' = ''1''
   \<and> length (normalize_body clean_plain ''1 '') < length ''1 ''
   \<and> normalize_body clean_plain [BSL, NL, CHR ''1''] = ''1''
   \<and> length (normalize_body clean_plain [BSL, NL, CHR ''1'']) < length [BSL, NL, CHR ''1'']"
  by (simp add: clean_plain_def normalize_body_def strip_def py_isspace_def is_space_def)


end
